theory Spec2Isabelle
  imports Complex_Main "HOL-Library.Multiset"
begin

section \<open>Strings, numbers and paths\<close>

text \<open>
  Embedding of \<^verbatim>\<open>backend/director/tools/local_video_processor.py\<close> (class
  \<^verbatim>\<open>LocalVideoProcessor\<close>) and of the search and info handlers of
  \<^verbatim>\<open>backend/director/agents/local_video_agent.py\<close>.

  Python strings are \<open>string\<close>; a \<open>char\<close> stands for one character of the text (the
  first 256 code points). Python floats and SQLite \<^verbatim>\<open>REAL\<close> columns are \<open>real\<close>: rounding
  of IEEE doubles is not modelled. Python names that start with an underscore lose it
  (\<^verbatim>\<open>_save_transcript_to_db\<close> is \<open>save_transcript_to_db\<close>).
\<close>

datatype py_error =
    CalledProcessError string
  | RuntimeError string
  | OSError string
  | FileNotFoundError string
  | ZeroDivisionError
  | ValueError string
  | Exception string

text \<open>\<^verbatim>\<open>str(e)\<close> of a caught exception.\<close>

fun str_error :: "py_error \<Rightarrow> string" where
  "str_error (CalledProcessError m) = m"
| "str_error (RuntimeError m) = m"
| "str_error (OSError m) = m"
| "str_error (FileNotFoundError m) = m"
| "str_error ZeroDivisionError = ''float division by zero''"
| "str_error (ValueError m) = m"
| "str_error (Exception m) = m"

text \<open>\<^verbatim>\<open>str(n)\<close> of a non-negative integer, and of an integer.\<close>

definition digit_char :: "nat \<Rightarrow> char" where
  "digit_char d = char_of (48 + d)"

function string_of_nat :: "nat \<Rightarrow> string" where
  "string_of_nat n =
     (if n < 10 then [digit_char n] else string_of_nat (n div 10) @ [digit_char (n mod 10)])"
  by pat_completeness auto
termination
  by (relation "measure id") auto

definition str_int :: "int \<Rightarrow> string" where
  "str_int i = (if i < 0 then ''-'' @ string_of_nat (nat (- i)) else string_of_nat (nat i))"

text \<open>The left inverse of \<open>string_of_nat\<close> (not in the source; used to show that file names
  of different scene indices differ).\<close>

definition digit_val :: "char \<Rightarrow> nat" where
  "digit_val c = of_char c - 48"

definition nat_of_string :: "string \<Rightarrow> nat" where
  "nat_of_string s = foldl (\<lambda>a c. 10 * a + digit_val c) 0 s"

text \<open>\<^verbatim>\<open>int(x)\<close> of a float: truncation towards zero.\<close>

definition py_int :: "real \<Rightarrow> int" where
  "py_int x = (if 0 \<le> x then \<lfloor>x\<rfloor> else \<lceil>x\<rceil>)"

text \<open>\<^verbatim>\<open>a / b\<close> on floats raises \<^verbatim>\<open>ZeroDivisionError\<close> when \<^verbatim>\<open>b\<close> is zero.\<close>

definition py_truediv :: "real \<Rightarrow> real \<Rightarrow> py_error + real" where
  "py_truediv a b = (if b = 0 then Inl ZeroDivisionError else Inr (a / b))"

text \<open>\<^verbatim>\<open>str.strip()\<close>: the characters below 256 for which \<^verbatim>\<open>str.isspace\<close> holds.\<close>

definition is_space :: "char \<Rightarrow> bool" where
  "is_space c = ((of_char c :: nat) \<in> {9, 10, 11, 12, 13, 28, 29, 30, 31, 32, 133, 160})"

definition strip :: "string \<Rightarrow> string" where
  "strip s = rev (dropWhile is_space (rev (dropWhile is_space s)))"

text \<open>
  \<^verbatim>\<open>pathlib\<close>: \<^verbatim>\<open>base / name\<close> (an absolute right operand replaces the base),
  \<^verbatim>\<open>Path(p).name\<close> and \<^verbatim>\<open>Path(p).stem\<close>. The normalisation \<^verbatim>\<open>pathlib\<close> applies to
  repeated separators and to \<^verbatim>\<open>.\<close> components is not modelled.
\<close>

definition path_join :: "string \<Rightarrow> string \<Rightarrow> string" where
  "path_join base name = (if take 1 name = ''/'' then name else base @ ''/'' @ name)"

definition path_name :: "string \<Rightarrow> string" where
  "path_name p =
     rev (takeWhile (\<lambda>c. c \<noteq> CHR ''/'') (dropWhile (\<lambda>c. c = CHR ''/'') (rev p)))"

definition path_stem :: "string \<Rightarrow> string" where
  "path_stem p =
     (let name = path_name p;
          ext = takeWhile (\<lambda>c. c \<noteq> CHR ''.'') (rev name)
      in if CHR ''.'' \<in> set name \<and> ext \<noteq> [] \<and> length ext + 1 < length name
         then take (length name - length ext - 1) name
         else name)"

section \<open>The SQLite store\<close>

text \<open>
  The comparison of SQLite's \<^verbatim>\<open>LIKE\<close> with its default settings (\<^verbatim>\<open>patternCompare\<close>):
  \<^verbatim>\<open>%\<close> matches any run of characters, \<^verbatim>\<open>_\<close> matches exactly one character, every other
  character matches itself, with the ASCII letters compared without regard to case. No
  escape character is in force. The first argument is the pattern and the second the
  text, as in \<^verbatim>\<open>text LIKE pattern\<close> read from the right.
\<close>

definition ascii_lower :: "char \<Rightarrow> char" where
  "ascii_lower c =
     (let n = (of_char c :: nat) in if 65 \<le> n \<and> n \<le> 90 then char_of (n + 32) else c)"

fun pattern_compare :: "string \<Rightarrow> string \<Rightarrow> bool" where
  "pattern_compare [] [] = True"
| "pattern_compare [] (t # ts) = False"
| "pattern_compare (p # ps) [] = (p = CHR ''%'' \<and> pattern_compare ps [])"
| "pattern_compare (p # ps) (t # ts) =
     (if p = CHR ''%'' then pattern_compare ps (t # ts) \<or> pattern_compare (p # ps) ts
      else (p = CHR ''_'' \<or> ascii_lower p = ascii_lower t) \<and> pattern_compare ps ts)"


text \<open>
  SQLite reads the pattern and the text as C strings: each ends at its first NUL
  character, and what follows the NUL takes no part in the comparison. A pattern longer
  than SQLite's limit (50000 bytes), which SQLite refuses, is outside the model.
\<close>

definition c_string :: "string \<Rightarrow> string" where
  "c_string s = takeWhile (\<lambda>c. c \<noteq> CHR 0x00) s"

definition like :: "string \<Rightarrow> string \<Rightarrow> bool" where
  "like pattern t = pattern_compare (c_string pattern) (c_string t)"


text \<open>The dictionaries that flow between the stages, as records.\<close>

record video_info =
  vi_filename :: string
  vi_duration :: real
  vi_fps :: real
  vi_width :: int
  vi_height :: int

record segment =
  start_time :: real
  end_time :: real
  seg_text :: string
  confidence :: real

record scene =
  scene_number :: nat
  sc_start_time :: real
  sc_end_time :: real
  frame_path :: string

text \<open>
  The three tables of \<^verbatim>\<open>_init_database\<close>. \<open>videos\<close> has the primary key \<^verbatim>\<open>id\<close>, so it is
  a map from the id; \<^verbatim>\<open>created_at\<close> is filled by \<^verbatim>\<open>CURRENT_TIMESTAMP\<close>. The rows of
  \<open>transcripts\<close> and \<open>scenes\<close> are kept in rowid order, with the \<^verbatim>\<open>AUTOINCREMENT\<close>
  counters beside them. No connection of the source enables the \<^verbatim>\<open>foreign_keys\<close>
  pragma, so the declared foreign keys are not checked by any statement.
\<close>

record video_row =
  v_info :: video_info
  v_created_at :: string

record transcript_row =
  tr_id :: nat
  tr_video_id :: string
  tr_seg :: segment

record scene_row =
  sr_id :: nat
  sr_video_id :: string
  sr_scene :: scene

record store =
  videos :: "string \<rightharpoonup> video_row"
  transcripts :: "transcript_row list"
  transcripts_seq :: nat
  scenes :: "scene_row list"
  scenes_seq :: nat

text \<open>
  A connection of Python's \<^verbatim>\<open>sqlite3\<close> module: a data-changing statement opens a
  transaction, its effect is pending until \<^verbatim>\<open>commit\<close>, and \<^verbatim>\<open>close\<close> drops what is pending.
  Readers on other connections see \<open>db_file\<close> only.
\<close>

record connection =
  db_file :: store
  pending :: "store option"

definition connect :: "store \<Rightarrow> connection" where
  "connect s = \<lparr>db_file = s, pending = None\<rparr>"

definition execute :: "(store \<Rightarrow> store) \<Rightarrow> connection \<Rightarrow> connection" where
  "execute stmt c =
     c\<lparr>pending := Some (stmt (case pending c of None \<Rightarrow> db_file c | Some w \<Rightarrow> w))\<rparr>"

definition commit :: "connection \<Rightarrow> connection" where
  "commit c = (case pending c of None \<Rightarrow> c | Some w \<Rightarrow> \<lparr>db_file = w, pending = None\<rparr>)"

definition close :: "connection \<Rightarrow> store" where
  "close c = db_file c"

text \<open>The statements of the source.\<close>

definition sql_insert_or_replace_video :: "string \<Rightarrow> video_info \<Rightarrow> string \<Rightarrow> store \<Rightarrow> store" where
  "sql_insert_or_replace_video vid info now s =
     s\<lparr>videos := (videos s)(vid \<mapsto> \<lparr>v_info = info, v_created_at = now\<rparr>)\<rparr>"

definition sql_delete_transcripts :: "string \<Rightarrow> store \<Rightarrow> store" where
  "sql_delete_transcripts vid s =
     s\<lparr>transcripts := filter (\<lambda>r. tr_video_id r \<noteq> vid) (transcripts s)\<rparr>"

definition sql_insert_transcript :: "string \<Rightarrow> segment \<Rightarrow> store \<Rightarrow> store" where
  "sql_insert_transcript vid seg s =
     s\<lparr>transcripts := transcripts s @
          [\<lparr>tr_id = Suc (transcripts_seq s), tr_video_id = vid, tr_seg = seg\<rparr>],
       transcripts_seq := Suc (transcripts_seq s)\<rparr>"

definition sql_delete_scenes :: "string \<Rightarrow> store \<Rightarrow> store" where
  "sql_delete_scenes vid s =
     s\<lparr>scenes := filter (\<lambda>r. sr_video_id r \<noteq> vid) (scenes s)\<rparr>"

definition sql_insert_scene :: "string \<Rightarrow> scene \<Rightarrow> store \<Rightarrow> store" where
  "sql_insert_scene vid sc s =
     s\<lparr>scenes := scenes s @ [\<lparr>sr_id = Suc (scenes_seq s), sr_video_id = vid, sr_scene = sc\<rparr>],
       scenes_seq := Suc (scenes_seq s)\<rparr>"

text \<open>\<^verbatim>\<open>_save_video_to_db\<close>, \<^verbatim>\<open>_save_transcript_to_db\<close> and \<^verbatim>\<open>_save_scenes_to_db\<close>: connect,
  execute the statements, commit, close.\<close>

definition save_video_to_db :: "store \<Rightarrow> string \<Rightarrow> video_info \<Rightarrow> string \<Rightarrow> store" where
  "save_video_to_db s vid info now =
     close (commit (execute (sql_insert_or_replace_video vid info now) (connect s)))"

definition transcript_statements :: "string \<Rightarrow> segment list \<Rightarrow> connection \<Rightarrow> connection" where
  "transcript_statements vid transcript_data c =
     foldl (\<lambda>c seg. execute (sql_insert_transcript vid seg) c)
       (execute (sql_delete_transcripts vid) c) transcript_data"

definition save_transcript_to_db :: "store \<Rightarrow> string \<Rightarrow> segment list \<Rightarrow> store" where
  "save_transcript_to_db s vid transcript_data =
     close (commit (transcript_statements vid transcript_data (connect s)))"

definition scene_statements :: "string \<Rightarrow> scene list \<Rightarrow> connection \<Rightarrow> connection" where
  "scene_statements vid scenes_data c =
     foldl (\<lambda>c sc. execute (sql_insert_scene vid sc) c)
       (execute (sql_delete_scenes vid) c) scenes_data"

definition save_scenes_to_db :: "store \<Rightarrow> string \<Rightarrow> scene list \<Rightarrow> store" where
  "save_scenes_to_db s vid scenes_data =
     close (commit (scene_statements vid scenes_data (connect s)))"

section \<open>The processor and the outside world\<close>

text \<open>
  The files under the storage root are a map from the path to what the file holds. What
  a file holds is named by how it was produced: that is all the stages depend on.
\<close>

record whisper_segment =
  ws_start :: real
  ws_end :: real
  ws_text :: string
  ws_avg_logprob :: "real option"

record whisper_result =
  wr_text :: string
  wr_segments :: "whisper_segment list"

datatype file_content =
    EmptyFile
  | VideoFile string
  | AudioFile string
  | KeyframeImage string real
  | TranscriptJson whisper_result

record processor =
  storage_path :: string
  whisper_model :: bool
  db :: store
  files :: "string \<rightharpoonup> file_content"

definition videos_path :: "processor \<Rightarrow> string" where
  "videos_path p = path_join (storage_path p) ''videos''"

definition frames_path :: "processor \<Rightarrow> string" where
  "frames_path p = path_join (storage_path p) ''frames''"

definition transcripts_path :: "processor \<Rightarrow> string" where
  "transcripts_path p = path_join (storage_path p) ''transcripts''"

text \<open>
  What the external programs and the clock answer during one call. \<^verbatim>\<open>ffmpeg\<close>, Whisper,
  PySceneDetect and OpenCV are not part of the repository: a call either raises (the
  error is given) or succeeds with the given result. A call of \<^verbatim>\<open>ffmpeg\<close> that fails is
  taken to leave the files as they were, and one that succeeds to write its output file.
  Errors of SQLite itself (a locked or full database) are not modelled.
\<close>

record probe =
  cap_fps :: real
  cap_frame_count :: real
  cap_width :: real
  cap_height :: real

record upload_env =
  u_timestamp :: int
  u_convert :: "py_error option"
  u_probe :: probe
  u_current_timestamp :: string

record transcribe_env =
  t_temp_name :: string
  t_extract :: "py_error option"
  t_whisper :: "py_error + whisper_result"
  t_write_json :: "py_error option"

record detect_env =
  d_detector :: "real \<Rightarrow> py_error + (real \<times> real) list"
  d_keyframe :: "nat \<Rightarrow> py_error option"

text \<open>The result dictionaries: \<^verbatim>\<open>{"success": True, ...}\<close> or
  \<^verbatim>\<open>{"success": False, "error": str(e)}\<close>.\<close>

datatype 'a result = Success 'a | Failure string

subsection \<open>The private helpers\<close>

definition convert_video ::
  "processor \<Rightarrow> upload_env \<Rightarrow> string \<Rightarrow> string \<Rightarrow> py_error + processor" where
  "convert_video p env input_path output_path =
     (case u_convert env of
        Some e \<Rightarrow> Inl e
      | None \<Rightarrow> Inr (p\<lparr>files := (files p)(output_path \<mapsto> VideoFile input_path)\<rparr>))"

text \<open>\<^verbatim>\<open>_get_video_info\<close>, here \<open>get_video_info_probe\<close> since the public query is
  \<^verbatim>\<open>get_video_info\<close>: \<^verbatim>\<open>duration = frame_count / fps if fps > 0 else 0\<close>. The argument
  \<open>cap\<close> is what the \<^verbatim>\<open>cv2.VideoCapture\<close> of the file answers.\<close>

definition get_video_info_probe :: "string \<Rightarrow> probe \<Rightarrow> py_error + video_info" where
  "get_video_info_probe video_path cap =
     (let fps = cap_fps cap;
          frame_count = cap_frame_count cap;
          width = py_int (cap_width cap);
          height = py_int (cap_height cap)
      in case (if fps > 0 then py_truediv frame_count fps else Inr 0) of
           Inl e \<Rightarrow> Inl e
         | Inr duration \<Rightarrow>
             Inr \<lparr>vi_filename = path_name video_path, vi_duration = duration, vi_fps = fps,
                  vi_width = width, vi_height = height\<rparr>)"

text \<open>\<^verbatim>\<open>_extract_audio\<close>: \<^verbatim>\<open>NamedTemporaryFile(delete=False)\<close> creates the scratch file, then
  \<^verbatim>\<open>ffmpeg\<close> fills it or fails.\<close>

definition extract_audio ::
  "processor \<Rightarrow> transcribe_env \<Rightarrow> string \<Rightarrow> (py_error + string) \<times> processor" where
  "extract_audio p env video_path =
     (let audio_path = t_temp_name env;
          p1 = p\<lparr>files := (files p)(audio_path \<mapsto> EmptyFile)\<rparr>
      in case t_extract env of
           Some e \<Rightarrow> (Inl e, p1)
         | None \<Rightarrow> (Inr audio_path, p1\<lparr>files := (files p1)(audio_path \<mapsto> AudioFile video_path)\<rparr>))"

definition frame_file :: "processor \<Rightarrow> string \<Rightarrow> nat \<Rightarrow> string" where
  "frame_file p video_id scene_num =
     path_join (frames_path p) (video_id @ ''_scene_'' @ string_of_nat scene_num @ ''.jpg'')"

definition extract_keyframe ::
  "processor \<Rightarrow> detect_env \<Rightarrow> string \<Rightarrow> real \<Rightarrow> string \<Rightarrow> nat \<Rightarrow> (py_error + string) \<times> processor" where
  "extract_keyframe p env video_path timestamp video_id scene_num =
     (let frame_path = frame_file p video_id scene_num
      in case d_keyframe env scene_num of
           Some e \<Rightarrow> (Inl e, p)
         | None \<Rightarrow>
             (Inr frame_path,
              p\<lparr>files := (files p)(frame_path \<mapsto> KeyframeImage video_path timestamp)\<rparr>))"

definition write_json ::
  "processor \<Rightarrow> transcribe_env \<Rightarrow> string \<Rightarrow> whisper_result \<Rightarrow> py_error + processor" where
  "write_json p env path res =
     (case t_write_json env of
        Some e \<Rightarrow> Inl e
      | None \<Rightarrow> Inr (p\<lparr>files := (files p)(path \<mapsto> TranscriptJson res)\<rparr>))"

definition os_remove :: "processor \<Rightarrow> string \<Rightarrow> py_error + processor" where
  "os_remove p path =
     (case files p path of
        None \<Rightarrow> Inl (FileNotFoundError path)
      | Some _ \<Rightarrow> Inr (p\<lparr>files := (files p)(path := None)\<rparr>))"

subsection \<open>The stages\<close>

definition upload_video ::
  "processor \<Rightarrow> upload_env \<Rightarrow> string \<Rightarrow> string option \<Rightarrow> (string \<times> video_info) result \<times> processor" where
  "upload_video p env video_path video_id_opt =
     (let video_id = (case video_id_opt of
                        None \<Rightarrow> path_stem video_path @ ''_'' @ str_int (u_timestamp env)
                      | Some v \<Rightarrow> v);
          dest_path = path_join (videos_path p) (video_id @ ''.mp4'')
      in case convert_video p env video_path dest_path of
           Inl e \<Rightarrow> (Failure (str_error e), p)
         | Inr p1 \<Rightarrow>
            (case get_video_info_probe dest_path (u_probe env) of
               Inl e \<Rightarrow> (Failure (str_error e), p1)
             | Inr video_info \<Rightarrow>
                 (Success (video_id, video_info),
                  p1\<lparr>db := save_video_to_db (db p1) video_id video_info
                               (u_current_timestamp env)\<rparr>)))"

definition transcript_entry :: "whisper_segment \<Rightarrow> segment" where
  "transcript_entry s =
     \<lparr>start_time = ws_start s, end_time = ws_end s, seg_text = strip (ws_text s),
      confidence = (case ws_avg_logprob s of None \<Rightarrow> 0 | Some c \<Rightarrow> c)\<rparr>"

definition transcribe_video ::
  "processor \<Rightarrow> transcribe_env \<Rightarrow> string \<Rightarrow> (segment list \<times> string) result \<times> processor" where
  "transcribe_video p env video_id =
     (if \<not> whisper_model p then (Failure ''Whisper model not available'', p)
      else
        let video_path = path_join (videos_path p) (video_id @ ''.mp4'')
        in case extract_audio p env video_path of
             (Inl e, p1) \<Rightarrow> (Failure (str_error e), p1)
           | (Inr audio_path, p1) \<Rightarrow>
              (case t_whisper env of
                 Inl e \<Rightarrow> (Failure (str_error e), p1)
               | Inr res \<Rightarrow>
                  (let transcript_data = map transcript_entry (wr_segments res);
                       p2 = p1\<lparr>db := save_transcript_to_db (db p1) video_id transcript_data\<rparr>;
                       transcript_file = path_join (transcripts_path p) (video_id @ ''.json'')
                   in case write_json p2 env transcript_file res of
                        Inl e \<Rightarrow> (Failure (str_error e), p2)
                      | Inr p3 \<Rightarrow>
                         (case os_remove p3 audio_path of
                            Inl e \<Rightarrow> (Failure (str_error e), p3)
                          | Inr p4 \<Rightarrow> (Success (transcript_data, wr_text res), p4)))))"

text \<open>The loop of \<^verbatim>\<open>detect_scenes\<close> over \<^verbatim>\<open>enumerate(scene_list)\<close>: \<open>i\<close> is the index of
  the next scene and \<open>scenes_data\<close> the list built so far. The first keyframe that cannot
  be extracted ends the loop with its error.\<close>

fun extract_keyframes ::
  "processor \<Rightarrow> detect_env \<Rightarrow> string \<Rightarrow> string \<Rightarrow> nat \<Rightarrow> (real \<times> real) list \<Rightarrow> scene list
     \<Rightarrow> (py_error + scene list) \<times> processor" where
  "extract_keyframes p env video_path video_id i [] scenes_data = (Inr scenes_data, p)"
| "extract_keyframes p env video_path video_id i (sc # rest) scenes_data =
     (case extract_keyframe p env video_path (fst sc) video_id i of
        (Inl e, p1) \<Rightarrow> (Inl e, p1)
      | (Inr fp, p1) \<Rightarrow>
          extract_keyframes p1 env video_path video_id (Suc i) rest
            (scenes_data @
               [\<lparr>scene_number = i, sc_start_time = fst sc, sc_end_time = snd sc,
                 frame_path = fp\<rparr>]))"

definition detect_scenes ::
  "processor \<Rightarrow> detect_env \<Rightarrow> string \<Rightarrow> real \<Rightarrow> (scene list \<times> nat) result \<times> processor" where
  "detect_scenes p env video_id threshold =
     (let video_path = path_join (videos_path p) (video_id @ ''.mp4'')
      in case d_detector env threshold of
           Inl e \<Rightarrow> (Failure (str_error e), p)
         | Inr scene_list \<Rightarrow>
            (case extract_keyframes p env video_path video_id 0 scene_list [] of
               (Inl e, p1) \<Rightarrow> (Failure (str_error e), p1)
             | (Inr scenes_data, p1) \<Rightarrow>
                 (Success (scenes_data, length scenes_data),
                  p1\<lparr>db := save_scenes_to_db (db p1) video_id scenes_data\<rparr>)))"

subsection \<open>The queries\<close>

text \<open>\<^verbatim>\<open>search_transcript\<close>: the rows of the video whose text is \<^verbatim>\<open>LIKE\<close> the pattern
  \<^verbatim>\<open>f"%{query}%"\<close>, \<^verbatim>\<open>ORDER BY start_time\<close>. \<^verbatim>\<open>get_video_info\<close> returns \<^verbatim>\<open>None\<close> when no row
  has the id.\<close>

definition search_transcript :: "processor \<Rightarrow> string \<Rightarrow> string \<Rightarrow> segment list" where
  "search_transcript p video_id query =
     map tr_seg
       (sort_key (\<lambda>r. start_time (tr_seg r))
          (filter (\<lambda>r. tr_video_id r = video_id \<and> like (''%'' @ query @ ''%'') (seg_text (tr_seg r)))
             (transcripts (db p))))"

definition get_video_info :: "processor \<Rightarrow> string \<Rightarrow> (string \<times> video_row) option" where
  "get_video_info p video_id =
     (case videos (db p) video_id of None \<Rightarrow> None | Some row \<Rightarrow> Some (video_id, row))"

subsection \<open>The agent's handlers for search and info\<close>

text \<open>
  \<^verbatim>\<open>LocalVideoAgent._handle_search\<close> and \<^verbatim>\<open>_handle_get_info\<close>: what they raise or return.
  The content objects they build and publish to the session are left out (building them
  is taken not to raise). \<^verbatim>\<open>not video_id\<close> holds for \<^verbatim>\<open>None\<close> and for the empty string.
\<close>

datatype agent_status = SUCCESS | ERROR

datatype response_data =
    SearchResults "segment list" string
  | VideoInfo string video_row

record agent_response =
  status :: agent_status
  message :: string
  data :: response_data

definition falsy :: "string option \<Rightarrow> bool" where
  "falsy s = (case s of None \<Rightarrow> True | Some v \<Rightarrow> v = [])"

definition handle_search ::
  "processor \<Rightarrow> string option \<Rightarrow> string option \<Rightarrow> py_error + agent_response" where
  "handle_search p video_id query =
     (if falsy video_id then Inl (ValueError ''Video ID is required for search'')
      else if falsy query then Inl (ValueError ''Query is required for search'')
      else
        (let results = search_transcript p (the video_id) (the query)
         in Inr \<lparr>status = SUCCESS,
                 message = ''Search completed, found '' @ string_of_nat (length results)
                             @ '' matches'',
                 data = SearchResults results (the query)\<rparr>))"

definition handle_get_info :: "processor \<Rightarrow> string option \<Rightarrow> py_error + agent_response" where
  "handle_get_info p video_id =
     (if falsy video_id then Inl (ValueError ''Video ID is required to get info'')
      else
        (case get_video_info p (the video_id) of
           Some (i, row) \<Rightarrow>
             Inr \<lparr>status = SUCCESS, message = ''Video information retrieved successfully'',
                  data = VideoInfo i row\<rparr>
         | None \<Rightarrow> Inl (Exception (''Video not found: '' @ the video_id))))"

subsection \<open>What a reader of the store sees for one video\<close>

text \<open>The segments and the scenes stored under a video id, in rowid order
  (\<^verbatim>\<open>SELECT ... WHERE video_id = ?\<close>). They are used to state the properties below.\<close>

definition segments_of :: "store \<Rightarrow> string \<Rightarrow> segment list" where
  "segments_of s vid = map tr_seg (filter (\<lambda>r. tr_video_id r = vid) (transcripts s))"

definition scenes_of :: "store \<Rightarrow> string \<Rightarrow> scene list" where
  "scenes_of s vid = map sr_scene (filter (\<lambda>r. sr_video_id r = vid) (scenes s))"

subsection \<open>A fresh processor\<close>

text \<open>\<^verbatim>\<open>_init_database\<close> on a new file creates the three empty tables; \<^verbatim>\<open>__init__\<close> records
  whether the Whisper model could be loaded.\<close>

definition init_database :: store where
  "init_database =
     \<lparr>videos = Map.empty, transcripts = [], transcripts_seq = 0, scenes = [], scenes_seq = 0\<rparr>"

definition init_processor :: "string \<Rightarrow> bool \<Rightarrow> processor" where
  "init_processor path model_loaded =
     \<lparr>storage_path = path, whisper_model = model_loaded, db = init_database,
      files = Map.empty\<rparr>"

section \<open>Example states\<close>

text \<open>Two transcript segments, stored out of start-time order under the video id \<open>v\<close>.\<close>

definition seg_hello :: segment where
  "seg_hello = \<lparr>start_time = 5, end_time = 7, seg_text = ''Hello World'', confidence = - 1\<rparr>"

definition seg_abc :: segment where
  "seg_abc = \<lparr>start_time = 1, end_time = 3, seg_text = ''abc'', confidence = 0\<rparr>"

definition indexed_processor :: processor where
  "indexed_processor =
     (init_processor ''store'' True)
       \<lparr>db := save_transcript_to_db init_database ''v'' [seg_hello, seg_abc]\<rparr>"

text \<open>What OpenCV reports for a file it cannot read (every property is 0), and for the
  five-second test video of \<^verbatim>\<open>test_local_video.py\<close> (640 by 480, 30 frames a second).\<close>

definition unreadable_probe :: probe where
  "unreadable_probe = \<lparr>cap_fps = 0, cap_frame_count = 0, cap_width = 0, cap_height = 0\<rparr>"

definition test_probe :: probe where
  "test_probe = \<lparr>cap_fps = 30, cap_frame_count = 150, cap_width = 640, cap_height = 480\<rparr>"

definition upload_ok_env :: "probe \<Rightarrow> upload_env" where
  "upload_ok_env cap =
     \<lparr>u_timestamp = 1700000000, u_convert = None, u_probe = cap,
      u_current_timestamp = ''2023-11-14 22:13:20''\<rparr>"

text \<open>What Whisper, the detector and the file system answer in the examples: a transcript
  of one segment, a scratch file name, and a detector with fixed boundaries whose
  keyframes can all be extracted.\<close>

definition whisper_hello :: whisper_result where
  "whisper_hello =
     \<lparr>wr_text = '' Hello World'',
      wr_segments = [\<lparr>ws_start = 5, ws_end = 7, ws_text = '' Hello World '',
                      ws_avg_logprob = Some (- 1)\<rparr>]\<rparr>"

definition transcribe_env_of ::
  "py_error + whisper_result \<Rightarrow> py_error option \<Rightarrow> transcribe_env" where
  "transcribe_env_of whisper write =
     \<lparr>t_temp_name = ''/tmp/tmpk3x9.wav'', t_extract = None, t_whisper = whisper,
      t_write_json = write\<rparr>"

definition detect_env_of :: "(real \<times> real) list \<Rightarrow> detect_env" where
  "detect_env_of bs = \<lparr>d_detector = (\<lambda>threshold. Inr bs), d_keyframe = (\<lambda>i. None)\<rparr>"

text \<open>A processor on which scene detection has run once for the video \<open>v\<close> and found two
  scenes.\<close>

definition two_scene_processor :: processor where
  "two_scene_processor =
     snd (detect_scenes (init_processor ''store'' True) (detect_env_of [(0, 2), (2, 5)]) ''v'' 27)"

text \<open>Outside worlds in which one step fails: the transcoder, the extraction of the
  second keyframe, Whisper, and the writing of the transcript file.\<close>

definition upload_fail_env :: upload_env where
  "upload_fail_env =
     (upload_ok_env test_probe)
       \<lparr>u_convert := Some (CalledProcessError ''ffmpeg returned non-zero exit status 1'')\<rparr>"

definition keyframe_fail_env :: detect_env where
  "keyframe_fail_env =
     \<lparr>d_detector = (\<lambda>threshold. Inr [(0, 2), (2, 5)]),
      d_keyframe = (\<lambda>i. if i = 1
                          then Some (CalledProcessError ''ffmpeg returned non-zero exit status 1'')
                          else None)\<rparr>"

definition whisper_fail_env :: transcribe_env where
  "whisper_fail_env = transcribe_env_of (Inl (RuntimeError ''CUDA out of memory'')) None"

definition write_fail_env :: transcribe_env where
  "write_fail_env =
     transcribe_env_of (Inr whisper_hello) (Some (OSError ''No space left on device''))"

definition transcribe_ok_env :: transcribe_env where
  "transcribe_ok_env = transcribe_env_of (Inr whisper_hello) None"

text \<open>A store in which one segment is stored under the id \<open>ghost\<close>, which has no video row;
  a processor whose only segment has a NUL character in its text; and a probe that
  reports -1 for every property.\<close>

definition ghost_store :: store where
  "ghost_store = save_transcript_to_db init_database ''ghost'' [seg_abc]"



definition negative_probe :: probe where
  "negative_probe = \<lparr>cap_fps = - 1, cap_frame_count = - 1, cap_width = - 1, cap_height = - 1\<rparr>"

section \<open>Facts about the helpers\<close>

declare string_of_nat.simps [simp del]

lemma digit_val_digit_char: "d < 10 \<Longrightarrow> digit_val (digit_char d) = d"
  by (simp add: digit_val_def digit_char_def)

lemma nat_of_string_snoc: "nat_of_string (s @ [c]) = 10 * nat_of_string s + digit_val c"
  by (simp add: nat_of_string_def)

lemma nat_of_string_of_nat: "nat_of_string (string_of_nat n) = n"
proof (induction n rule: string_of_nat.induct)
  case (1 n)
  show ?case
  proof (cases "n < 10")
    case True
    then show ?thesis
      by (simp add: string_of_nat.simps [of n] nat_of_string_def digit_val_digit_char)
  next
    case False
    with 1 show ?thesis
      by (simp add: string_of_nat.simps [of n] nat_of_string_snoc digit_val_digit_char)
  qed
qed

lemma string_of_nat_inj: "string_of_nat a = string_of_nat b \<Longrightarrow> a = b"
  by (metis nat_of_string_of_nat)

lemma frame_file_inj: "frame_file p vid i = frame_file p vid j \<Longrightarrow> i = j"
  by (cases vid) (auto simp: frame_file_def path_join_def dest: string_of_nat_inj split: if_splits)

lemma pattern_compare_percent: "pattern_compare ''%'' t"
  by (induction t) auto

lemma pattern_compare_star: "pattern_compare (CHR ''%'' # r) t \<longleftrightarrow> (\<exists>pre post. t = pre @ post \<and> pattern_compare r post)"
proof (induction t)
  case Nil
  then show ?case by simp
next
  case (Cons a t)
  show ?case
  proof
    assume "pattern_compare (CHR ''%'' # r) (a # t)"
    then consider "pattern_compare r (a # t)" | "pattern_compare (CHR ''%'' # r) t" by auto
    then show "\<exists>pre post. a # t = pre @ post \<and> pattern_compare r post"
    proof cases
      case 1
      have "a # t = [] @ (a # t)" by simp
      with 1 show ?thesis by blast
    next
      case 2
      with Cons obtain pre post where "t = pre @ post" "pattern_compare r post" by auto
      then have "a # t = (a # pre) @ post" by simp
      with \<open>pattern_compare r post\<close> show ?thesis by blast
    qed
  next
    assume "\<exists>pre post. a # t = pre @ post \<and> pattern_compare r post"
    then obtain pre post where h: "a # t = pre @ post" "pattern_compare r post" by auto
    show "pattern_compare (CHR ''%'' # r) (a # t)"
    proof (cases pre)
      case Nil
      with h show ?thesis by auto
    next
      case (Cons b pre')
      with h have "t = pre' @ post" by simp
      with h Cons.IH have "pattern_compare (CHR ''%'' # r) t" by auto
      then show ?thesis by simp
    qed
  qed
qed






lemma like_everything: "like ''%%'' t"
proof -
  have "c_string ''%%'' = ''%%''"
    by (simp add: c_string_def)
  moreover have "pattern_compare ''%%'' u" for u
    using pattern_compare_star [of "''%''" u] pattern_compare_percent by blast
  ultimately show ?thesis by (simp add: like_def)
qed


subsection \<open>The store\<close>

lemma execute_pending:
  "execute f \<lparr>db_file = s, pending = Some w\<rparr> = \<lparr>db_file = s, pending = Some (f w)\<rparr>"
  by (simp add: execute_def)

lemma execute_connect: "execute f (connect s) = \<lparr>db_file = s, pending = Some (f s)\<rparr>"
  by (simp add: execute_def connect_def)

lemma foldl_execute:
  "foldl (\<lambda>c x. execute (f x) c) \<lparr>db_file = s, pending = Some w\<rparr> xs =
     \<lparr>db_file = s, pending = Some (foldl (\<lambda>w x. f x w) w xs)\<rparr>"
  by (induction xs arbitrary: w) (simp_all add: execute_pending)

lemma transcript_statements_connect:
  "transcript_statements vid segs (connect s) =
     \<lparr>db_file = s,
      pending = Some (foldl (\<lambda>w seg. sql_insert_transcript vid seg w)
                        (sql_delete_transcripts vid s) segs)\<rparr>"
  by (simp add: transcript_statements_def execute_connect foldl_execute)

lemma save_transcript_to_db_eq:
  "save_transcript_to_db s vid segs =
     foldl (\<lambda>w seg. sql_insert_transcript vid seg w) (sql_delete_transcripts vid s) segs"
  by (simp add: save_transcript_to_db_def transcript_statements_connect commit_def close_def)

lemma scene_statements_connect:
  "scene_statements vid scs (connect s) =
     \<lparr>db_file = s,
      pending = Some (foldl (\<lambda>w sc. sql_insert_scene vid sc w) (sql_delete_scenes vid s) scs)\<rparr>"
  by (simp add: scene_statements_def execute_connect foldl_execute)

lemma save_scenes_to_db_eq:
  "save_scenes_to_db s vid scs =
     foldl (\<lambda>w sc. sql_insert_scene vid sc w) (sql_delete_scenes vid s) scs"
  by (simp add: save_scenes_to_db_def scene_statements_connect commit_def close_def)

lemma save_video_to_db_eq:
  "save_video_to_db s vid info now = sql_insert_or_replace_video vid info now s"
  by (simp add: save_video_to_db_def connect_def execute_def commit_def close_def)

lemma insert_transcripts_fields:
  "videos (foldl (\<lambda>w seg. sql_insert_transcript vid seg w) s segs) = videos s"
  "scenes (foldl (\<lambda>w seg. sql_insert_transcript vid seg w) s segs) = scenes s"
  "scenes_seq (foldl (\<lambda>w seg. sql_insert_transcript vid seg w) s segs) = scenes_seq s"
  "transcripts_seq (foldl (\<lambda>w seg. sql_insert_transcript vid seg w) s segs) =
     transcripts_seq s + length segs"
  by (induction segs arbitrary: s) (simp_all add: sql_insert_transcript_def)

lemma insert_transcripts_rows:
  "\<exists>new. transcripts (foldl (\<lambda>w seg. sql_insert_transcript vid seg w) s segs) =
           transcripts s @ new \<and> map tr_seg new = segs \<and>
           map tr_video_id new = replicate (length segs) vid"
proof (induction segs arbitrary: s)
  case Nil
  then show ?case by simp
next
  case (Cons g segs)
  let ?s1 = "sql_insert_transcript vid g s"
  from Cons [of ?s1] obtain new where
    n: "transcripts (foldl (\<lambda>w seg. sql_insert_transcript vid seg w) ?s1 segs) =
          transcripts ?s1 @ new" "map tr_seg new = segs"
       "map tr_video_id new = replicate (length segs) vid"
    by blast
  let ?r = "\<lparr>tr_id = Suc (transcripts_seq s), tr_video_id = vid, tr_seg = g\<rparr>"
  have "transcripts ?s1 = transcripts s @ [?r]"
    by (simp add: sql_insert_transcript_def)
  with n have "transcripts (foldl (\<lambda>w seg. sql_insert_transcript vid seg w) s (g # segs)) =
      transcripts s @ (?r # new) \<and> map tr_seg (?r # new) = g # segs \<and>
      map tr_video_id (?r # new) = replicate (length (g # segs)) vid"
    by simp
  then show ?case by (rule exI [of _ "?r # new"])
qed

lemma filter_all_vid:
  "map tr_video_id new = replicate n vid \<Longrightarrow>
   filter (\<lambda>r. tr_video_id r = vid) new = new \<and> filter (\<lambda>r. tr_video_id r \<noteq> vid) new = []"
proof (induction new arbitrary: n)
  case Nil
  then show ?case by simp
next
  case (Cons r new)
  then show ?case by (cases n) auto
qed

lemma save_transcript_rows:
  "\<exists>new. transcripts (save_transcript_to_db s vid segs) =
           filter (\<lambda>r. tr_video_id r \<noteq> vid) (transcripts s) @ new \<and>
         map tr_seg new = segs \<and> map tr_video_id new = replicate (length segs) vid"
  using insert_transcripts_rows [of vid "sql_delete_transcripts vid s" segs]
  by (simp add: save_transcript_to_db_eq sql_delete_transcripts_def)

lemma segments_of_save_same: "segments_of (save_transcript_to_db s vid segs) vid = segs"
proof -
  from save_transcript_rows [of s vid segs] obtain new where
    n: "transcripts (save_transcript_to_db s vid segs) =
          filter (\<lambda>r. tr_video_id r \<noteq> vid) (transcripts s) @ new"
       "map tr_seg new = segs" "map tr_video_id new = replicate (length segs) vid"
    by blast
  from filter_all_vid [OF n(3)] have "filter (\<lambda>r. tr_video_id r = vid) new = new" by simp
  with n show ?thesis by (simp add: segments_of_def)
qed

lemma others_kept_by_save:
  "filter (\<lambda>r. tr_video_id r \<noteq> vid) (transcripts (save_transcript_to_db s vid segs)) =
   filter (\<lambda>r. tr_video_id r \<noteq> vid) (transcripts s)"
proof -
  from save_transcript_rows [of s vid segs] obtain new where
    n: "transcripts (save_transcript_to_db s vid segs) =
          filter (\<lambda>r. tr_video_id r \<noteq> vid) (transcripts s) @ new"
       "map tr_video_id new = replicate (length segs) vid"
    by blast
  from filter_all_vid [OF n(2)] have "filter (\<lambda>r. tr_video_id r \<noteq> vid) new = []" by simp
  with n show ?thesis by simp
qed

lemma filter_other_vid:
  "v \<noteq> vid \<Longrightarrow>
   filter (\<lambda>r. tr_video_id r = v) (filter (\<lambda>r. tr_video_id r \<noteq> vid) xs) =
   filter (\<lambda>r. tr_video_id r = v) xs"
  by (induction xs) auto

lemma segments_of_save_other:
  assumes "v \<noteq> vid"
  shows "segments_of (save_transcript_to_db s vid segs) v = segments_of s v"
proof -
  have "filter (\<lambda>r. tr_video_id r = v) (transcripts (save_transcript_to_db s vid segs)) =
        filter (\<lambda>r. tr_video_id r = v)
          (filter (\<lambda>r. tr_video_id r \<noteq> vid) (transcripts (save_transcript_to_db s vid segs)))"
    by (rule filter_other_vid [OF assms, symmetric])
  also have "\<dots> = filter (\<lambda>r. tr_video_id r = v)
          (filter (\<lambda>r. tr_video_id r \<noteq> vid) (transcripts s))"
    by (simp only: others_kept_by_save)
  also have "\<dots> = filter (\<lambda>r. tr_video_id r = v) (transcripts s)"
    by (rule filter_other_vid [OF assms])
  finally show ?thesis by (simp add: segments_of_def)
qed

lemma save_transcript_fields:
  "videos (save_transcript_to_db s vid segs) = videos s"
  "scenes (save_transcript_to_db s vid segs) = scenes s"
  "scenes_seq (save_transcript_to_db s vid segs) = scenes_seq s"
  by (simp_all add: save_transcript_to_db_eq insert_transcripts_fields sql_delete_transcripts_def)

lemma map_insort_key:
  "map f (insort_key (\<lambda>x. k (f x)) x xs) = insort_key k (f x) (map f xs)"
  by (induction xs) simp_all

lemma map_sort_key: "map f (sort_key (\<lambda>x. k (f x)) xs) = sort_key k (map f xs)"
  by (induction xs) (simp_all add: map_insort_key)

lemma search_transcript_eq:
  "search_transcript p vid q =
     sort_key start_time
       (filter (\<lambda>g. like (''%'' @ q @ ''%'') (seg_text g)) (segments_of (db p) vid))"
proof -
  have "filter (\<lambda>r. tr_video_id r = vid \<and> like (''%'' @ q @ ''%'') (seg_text (tr_seg r))) xs =
        filter (\<lambda>r. like (''%'' @ q @ ''%'') (seg_text (tr_seg r)))
          (filter (\<lambda>r. tr_video_id r = vid) xs)" for xs
    by (induction xs) auto
  then show ?thesis
    by (simp add: search_transcript_def segments_of_def map_sort_key filter_map o_def)
qed

lemma filter_none_rest:
  "filter P xs = [] \<Longrightarrow> filter (\<lambda>x. \<not> P x) xs = xs"
  by (induction xs) (auto split: if_splits)

lemma search_transcript_saved:
  "search_transcript (p\<lparr>db := save_transcript_to_db s vid segs\<rparr>) vid q =
     sort_key start_time (filter (\<lambda>g. like (''%'' @ q @ ''%'') (seg_text g)) segs)"
  by (simp add: search_transcript_eq segments_of_save_same)

lemma insert_transcript_ignores_videos:
  "sql_insert_transcript vid seg (s\<lparr>videos := m\<rparr>) =
   (sql_insert_transcript vid seg s)\<lparr>videos := m\<rparr>"
  by (simp add: sql_insert_transcript_def)

lemma insert_transcripts_ignore_videos:
  "foldl (\<lambda>w seg. sql_insert_transcript vid seg w) (s\<lparr>videos := m\<rparr>) segs =
   (foldl (\<lambda>w seg. sql_insert_transcript vid seg w) s segs)\<lparr>videos := m\<rparr>"
  by (induction segs arbitrary: s) (simp_all add: insert_transcript_ignores_videos)

lemma save_transcript_ignores_videos:
  "save_transcript_to_db (s\<lparr>videos := m\<rparr>) vid segs =
   (save_transcript_to_db s vid segs)\<lparr>videos := m\<rparr>"
proof -
  have "sql_delete_transcripts vid (s\<lparr>videos := m\<rparr>) = (sql_delete_transcripts vid s)\<lparr>videos := m\<rparr>"
    by (simp add: sql_delete_transcripts_def)
  then show ?thesis
    by (simp add: save_transcript_to_db_eq insert_transcripts_ignore_videos)
qed

section \<open>Replacing a transcript\<close>

text \<open>
  Claim C6. \<^verbatim>\<open>_save_transcript_to_db\<close> deletes every prior segment of the video id and
  inserts the new list as one unit: afterwards the segments stored under the id are exactly
  the new list, in order; the rows of every other video are as before; while the
  statements run, before the commit, a reader of the database file still sees the old
  store; and after two calls in a row only the second list is stored under the id and
  seen by \<^verbatim>\<open>search_transcript\<close>.
\<close>

theorem replace_transcript_replaces:
  "segments_of (save_transcript_to_db s vid segs) vid = segs
   \<and> filter (\<lambda>r. tr_video_id r \<noteq> vid) (transcripts (save_transcript_to_db s vid segs)) =
       filter (\<lambda>r. tr_video_id r \<noteq> vid) (transcripts s)
   \<and> db_file (transcript_statements vid segs (connect s)) = s
   \<and> segments_of (save_transcript_to_db (save_transcript_to_db s vid segs1) vid segs2) vid = segs2
   \<and> search_transcript
         (p\<lparr>db := save_transcript_to_db (save_transcript_to_db s vid segs1) vid segs2\<rparr>) vid q =
       sort_key start_time (filter (\<lambda>g. like (''%'' @ q @ ''%'') (seg_text g)) segs2)"
  by (simp add: segments_of_save_same others_kept_by_save transcript_statements_connect
      search_transcript_saved)

text \<open>
  Claim C10, as amended. When the video id has no row in \<open>videos\<close>, \<^verbatim>\<open>_save_transcript_to_db\<close>
  still completes, and the id has no row afterwards either: the call neither reads nor
  writes \<open>videos\<close> (changing that table before the call or after it gives the same store).
  It deletes exactly the segments stored under that id before the call, keeps every row
  of every other id in place, and appends the given segments under the id; so it deletes
  nothing when no segment was stored under the id. The new segments are the segments
  stored under the id and \<^verbatim>\<open>search_transcript\<close> finds them.
\<close>

theorem replace_transcript_without_video_row:
  assumes "videos s vid = None"
  shows "videos (save_transcript_to_db s vid segs) vid = None
   \<and> videos (save_transcript_to_db s vid segs) = videos s
   \<and> save_transcript_to_db (s\<lparr>videos := m\<rparr>) vid segs =
       (save_transcript_to_db s vid segs)\<lparr>videos := m\<rparr>
   \<and> (\<exists>new. transcripts (save_transcript_to_db s vid segs) =
                filter (\<lambda>r. tr_video_id r \<noteq> vid) (transcripts s) @ new
              \<and> map tr_seg new = segs
              \<and> map tr_video_id new = replicate (length segs) vid)
   \<and> segments_of (save_transcript_to_db s vid segs) vid = segs
   \<and> (segments_of s vid = [] \<longrightarrow>
        (\<exists>new. transcripts (save_transcript_to_db s vid segs) = transcripts s @ new
               \<and> map tr_seg new = segs))
   \<and> filter (\<lambda>r. tr_video_id r \<noteq> vid) (transcripts (save_transcript_to_db s vid segs)) =
       filter (\<lambda>r. tr_video_id r \<noteq> vid) (transcripts s)
   \<and> search_transcript (p\<lparr>db := save_transcript_to_db s vid segs\<rparr>) vid q =
       sort_key start_time (filter (\<lambda>g. like (''%'' @ q @ ''%'') (seg_text g)) segs)"
proof -
  have still: "videos (save_transcript_to_db s vid segs) vid = None"
    using assms by (simp add: save_transcript_fields)
  have untouched: "\<exists>new. transcripts (save_transcript_to_db s vid segs) = transcripts s @ new
               \<and> map tr_seg new = segs"
    if none: "segments_of s vid = []"
  proof -
    from none have "filter (\<lambda>r. tr_video_id r = vid) (transcripts s) = []"
      by (simp add: segments_of_def)
    then have keep: "filter (\<lambda>r. tr_video_id r \<noteq> vid) (transcripts s) = transcripts s"
      by (rule filter_none_rest)
    from save_transcript_rows [of s vid segs] obtain new where
      "transcripts (save_transcript_to_db s vid segs) =
         filter (\<lambda>r. tr_video_id r \<noteq> vid) (transcripts s) @ new" "map tr_seg new = segs"
      by blast
    with keep have "transcripts (save_transcript_to_db s vid segs) = transcripts s @ new
        \<and> map tr_seg new = segs"
      by simp
    then show ?thesis by (rule exI [of _ new])
  qed
  have untouched': "segments_of s vid = [] \<longrightarrow>
      (\<exists>new. transcripts (save_transcript_to_db s vid segs) = transcripts s @ new
             \<and> map tr_seg new = segs)"
  proof
    assume "segments_of s vid = []"
    then show "\<exists>new. transcripts (save_transcript_to_db s vid segs) = transcripts s @ new
             \<and> map tr_seg new = segs"
      by (rule untouched)
  qed
  from still untouched' save_transcript_rows [of s vid segs]
    save_transcript_ignores_videos [where s = s and m = m and vid = vid and segs = segs]
  show ?thesis
    by (simp add: save_transcript_fields segments_of_save_same others_kept_by_save
        search_transcript_saved)
qed

theorem replace_transcript_without_video_row_witness:
  "videos ghost_store ''ghost'' = None
   \<and> segments_of ghost_store ''ghost'' = [seg_abc]
   \<and> videos (save_transcript_to_db ghost_store ''ghost'' [seg_hello]) ''ghost'' = None
   \<and> segments_of (save_transcript_to_db ghost_store ''ghost'' [seg_hello]) ''ghost'' = [seg_hello]
   \<and> search_transcript
        ((init_processor ''store'' True)
           \<lparr>db := save_transcript_to_db ghost_store ''ghost'' [seg_hello]\<rparr>) ''ghost'' ''world'' =
       [seg_hello]"
proof -
  have h: "videos ghost_store ''ghost'' = None"
    by (simp add: ghost_store_def save_transcript_fields init_database_def)
  have g: "segments_of ghost_store ''ghost'' = [seg_abc]"
    by (simp add: ghost_store_def segments_of_save_same)
  have l: "like ''%world%'' (seg_text seg_hello)"
    by code_simp
  note all = replace_transcript_without_video_row
    [OF h, where segs = "[seg_hello]" and p = "init_processor ''store'' True" and q = "''world''"]
  from all have a: "videos (save_transcript_to_db ghost_store ''ghost'' [seg_hello]) ''ghost'' = None"
    by (rule conjunct1)
  from all have b: "segments_of (save_transcript_to_db ghost_store ''ghost'' [seg_hello]) ''ghost'' =
      [seg_hello]"
    by (simp only:)
  from all have "search_transcript
        ((init_processor ''store'' True)
           \<lparr>db := save_transcript_to_db ghost_store ''ghost'' [seg_hello]\<rparr>) ''ghost'' ''world'' =
       sort_key start_time (filter (\<lambda>g. like (''%'' @ ''world'' @ ''%'') (seg_text g)) [seg_hello])"
    by (simp only:)
  with l have c: "search_transcript
        ((init_processor ''store'' True)
           \<lparr>db := save_transcript_to_db ghost_store ''ghost'' [seg_hello]\<rparr>) ''ghost'' ''world'' =
       [seg_hello]"
    by simp
  from h g a b c show ?thesis by (intro conjI)
qed

text \<open>
  The claim as stated fails where it says that nothing is deleted: with one segment
  already stored under an id that has no video row, the call removes that row (rowid 1)
  and stores the new segment (rowid 2).
\<close>

theorem replace_transcript_deletes_counterexample:
  "videos ghost_store ''ghost'' = None
   \<and> transcripts ghost_store = [\<lparr>tr_id = 1, tr_video_id = ''ghost'', tr_seg = seg_abc\<rparr>]
   \<and> transcripts (save_transcript_to_db ghost_store ''ghost'' [seg_hello]) =
       [\<lparr>tr_id = 2, tr_video_id = ''ghost'', tr_seg = seg_hello\<rparr>]"
proof -
  have h: "videos ghost_store ''ghost'' = None"
    by (simp add: ghost_store_def save_transcript_fields init_database_def)
  have a: "transcripts ghost_store = [\<lparr>tr_id = 1, tr_video_id = ''ghost'', tr_seg = seg_abc\<rparr>]"
    by code_simp
  have b: "transcripts (save_transcript_to_db ghost_store ''ghost'' [seg_hello]) =
       [\<lparr>tr_id = 2, tr_video_id = ''ghost'', tr_seg = seg_hello\<rparr>]"
    by code_simp
  from h a b show ?thesis by (intro conjI)
qed

section \<open>Searching a transcript\<close>




lemma search_transcript_empty_query:
  "search_transcript p vid '''' = sort_key start_time (segments_of (db p) vid)"
  using like_everything by (simp add: search_transcript_eq)

text \<open>
  Claim C2, as amended. The empty query is rejected by the agent's search action:
  \<^verbatim>\<open>_handle_search\<close> raises \<^verbatim>\<open>ValueError\<close> for an empty or missing query whatever the
  video id is, and with the message \<^verbatim>\<open>Query is required for search\<close> when the video id is
  not empty, so the store is never asked. \<^verbatim>\<open>LocalVideoProcessor.search_transcript\<close> itself
  has no such check: for the empty query it returns every segment stored under the video
  id, ordered by start time.
\<close>

theorem empty_query_rejected_by_handler:
  "(\<exists>m. handle_search p video_id (Some '''') = Inl (ValueError m))
   \<and> (\<exists>m. handle_search p video_id None = Inl (ValueError m))
   \<and> handle_search p (Some (c # cs)) (Some '''') = Inl (ValueError ''Query is required for search'')
   \<and> handle_search p (Some (c # cs)) None = Inl (ValueError ''Query is required for search'')
   \<and> search_transcript p vid '''' = sort_key start_time (segments_of (db p) vid)"
  by (simp add: handle_search_def falsy_def search_transcript_empty_query)

text \<open>
  The claim as stated fails for \<^verbatim>\<open>search_transcript\<close>: called with the empty query it
  returns both stored segments.
\<close>

theorem empty_query_counterexample:
  "search_transcript indexed_processor ''v'' '''' = [seg_abc, seg_hello]"
  by code_simp

section \<open>Queries for an unknown video\<close>

text \<open>
  Claim C3, as amended. For a video id with no row in \<open>videos\<close>, \<^verbatim>\<open>get_video_info\<close> returns
  \<^verbatim>\<open>None\<close> and the agent's \<^verbatim>\<open>_handle_get_info\<close> raises \<^verbatim>\<open>Video not found\<close>;
  \<^verbatim>\<open>search_transcript\<close> does not look at \<open>videos\<close>: it returns the matching segments stored
  under the id (none when nothing is stored under it), and \<^verbatim>\<open>_handle_search\<close> reports
  success with them. The source has no operation that lists the scenes of a video.
\<close>

theorem unknown_video_queries:
  assumes "videos (db p) vid = None"
  shows "get_video_info p vid = None
   \<and> (vid \<noteq> [] \<longrightarrow>
        handle_get_info p (Some vid) = Inl (Exception (''Video not found: '' @ vid)))
   \<and> search_transcript p vid q =
        sort_key start_time
          (filter (\<lambda>g. like (''%'' @ q @ ''%'') (seg_text g)) (segments_of (db p) vid))
   \<and> (vid \<noteq> [] \<and> q \<noteq> [] \<longrightarrow>
        handle_search p (Some vid) (Some q) =
          Inr \<lparr>status = SUCCESS,
               message = ''Search completed, found ''
                 @ string_of_nat (length (search_transcript p vid q)) @ '' matches'',
               data = SearchResults (search_transcript p vid q) q\<rparr>)"
  using assms
  by (simp add: get_video_info_def handle_get_info_def handle_search_def falsy_def
      search_transcript_eq)

theorem unknown_video_queries_witness:
  "videos (db (init_processor ''store'' True)) ''ghost'' = None
   \<and> get_video_info (init_processor ''store'' True) ''ghost'' = None
   \<and> handle_get_info (init_processor ''store'' True) (Some ''ghost'') =
       Inl (Exception ''Video not found: ghost'')
   \<and> handle_search (init_processor ''store'' True) (Some ''ghost'') (Some ''hello'') =
       Inr \<lparr>status = SUCCESS, message = ''Search completed, found 0 matches'',
            data = SearchResults [] ''hello''\<rparr>"
proof -
  have h: "videos (db (init_processor ''store'' True)) ''ghost'' = None"
    by (simp add: init_processor_def init_database_def)
  have e: "search_transcript (init_processor ''store'' True) ''ghost'' ''hello'' = []"
    by code_simp
  have z: "string_of_nat 0 = ''0''"
    by code_simp
  from unknown_video_queries [OF h, of "''hello''"] h e z show ?thesis
    by simp
qed

text \<open>
  The claim as stated fails for the search: on a fresh store the search for an id that
  was never uploaded succeeds with no matches.
\<close>

theorem unknown_video_search_counterexample:
  "videos (db (init_processor ''store'' True)) ''ghost'' = None
   \<and> search_transcript (init_processor ''store'' True) ''ghost'' ''hello'' = []
   \<and> handle_search (init_processor ''store'' True) (Some ''ghost'') (Some ''hello'') =
       Inr \<lparr>status = SUCCESS, message = ''Search completed, found 0 matches'',
            data = SearchResults [] ''hello''\<rparr>"
proof -
  have h: "videos (db (init_processor ''store'' True)) ''ghost'' = None"
    by (simp add: init_processor_def init_database_def)
  have e: "search_transcript (init_processor ''store'' True) ''ghost'' ''hello'' = []"
    by code_simp
  have r: "handle_search (init_processor ''store'' True) (Some ''ghost'') (Some ''hello'') =
       Inr \<lparr>status = SUCCESS, message = ''Search completed, found 0 matches'',
            data = SearchResults [] ''hello''\<rparr>"
    by code_simp
  from h e r show ?thesis by blast
qed

section \<open>Probing a video\<close>

lemma get_video_info_probe_eq:
  "get_video_info_probe path cap =
     Inr \<lparr>vi_filename = path_name path,
          vi_duration = (if cap_fps cap > 0 then cap_frame_count cap / cap_fps cap else 0),
          vi_fps = cap_fps cap,
          vi_width = py_int (cap_width cap),
          vi_height = py_int (cap_height cap)\<rparr>"
  by (simp add: get_video_info_probe_def py_truediv_def Let_def)

text \<open>
  Claim C9, as amended. \<^verbatim>\<open>_get_video_info\<close> never raises: the duration is the frame count
  divided by the frame rate when the frame rate is positive, and 0 when the frame rate is
  0 or negative, so the division by zero is never reached; with a frame rate that is not
  positive the probe succeeds with duration 0, and an upload whose transcoding succeeds
  commits the row with duration 0.
\<close>

theorem probe_duration:
  "get_video_info_probe path cap =
     Inr \<lparr>vi_filename = path_name path,
          vi_duration = (if cap_fps cap > 0 then cap_frame_count cap / cap_fps cap else 0),
          vi_fps = cap_fps cap,
          vi_width = py_int (cap_width cap),
          vi_height = py_int (cap_height cap)\<rparr>
   \<and> get_video_info_probe path cap \<noteq> Inl ZeroDivisionError
   \<and> (0 < cap_fps cap \<longrightarrow>
        (\<exists>info. get_video_info_probe path cap = Inr info
               \<and> vi_duration info = cap_frame_count cap / cap_fps cap))
   \<and> (cap_fps cap \<le> 0 \<longrightarrow>
        (\<exists>info. get_video_info_probe path cap = Inr info \<and> vi_duration info = 0))
   \<and> (u_convert env = None \<and> cap_fps (u_probe env) \<le> 0 \<longrightarrow>
        (\<exists>vid info p'. upload_video p env path video_id = (Success (vid, info), p')
                        \<and> vi_duration info = 0
                        \<and> (\<exists>row. videos (db p') vid = Some row \<and> vi_duration (v_info row) = 0)))"
  by (simp add: get_video_info_probe_eq upload_video_def convert_video_def Let_def
      save_video_to_db_eq sql_insert_or_replace_video_def)

theorem probe_duration_witness:
  "cap_fps unreadable_probe \<le> 0 \<and> 0 < cap_fps test_probe \<and> cap_fps negative_probe \<le> 0
   \<and> get_video_info_probe ''store/videos/v.mp4'' unreadable_probe =
       Inr \<lparr>vi_filename = ''v.mp4'', vi_duration = 0, vi_fps = 0, vi_width = 0, vi_height = 0\<rparr>
   \<and> get_video_info_probe ''store/videos/v.mp4'' test_probe =
       Inr \<lparr>vi_filename = ''v.mp4'', vi_duration = 5, vi_fps = 30, vi_width = 640,
            vi_height = 480\<rparr>
   \<and> get_video_info_probe ''store/videos/v.mp4'' negative_probe =
       Inr \<lparr>vi_filename = ''v.mp4'', vi_duration = 0, vi_fps = - 1, vi_width = - 1,
            vi_height = - 1\<rparr>
   \<and> fst (upload_video (init_processor ''store'' True) (upload_ok_env unreadable_probe)
             ''clip.avi'' (Some ''v'')) =
       Success (''v'', \<lparr>vi_filename = ''v.mp4'', vi_duration = 0, vi_fps = 0, vi_width = 0,
                         vi_height = 0\<rparr>)"
proof -
  have n: "path_name ''store/videos/v.mp4'' = ''v.mp4''"
    by code_simp
  have j: "path_join (videos_path (init_processor ''store'' True)) ''v.mp4'' = ''store/videos/v.mp4''"
    by code_simp
  have h: "cap_fps unreadable_probe \<le> 0" "0 < cap_fps test_probe" "cap_fps negative_probe \<le> 0"
    by (simp_all add: unreadable_probe_def test_probe_def negative_probe_def)
  have u: "fst (upload_video (init_processor ''store'' True) (upload_ok_env unreadable_probe)
             ''clip.avi'' (Some ''v'')) =
       Success (''v'', \<lparr>vi_filename = ''v.mp4'', vi_duration = 0, vi_fps = 0, vi_width = 0,
                         vi_height = 0\<rparr>)"
    using j n
    by (simp add: upload_video_def convert_video_def get_video_info_probe_eq upload_ok_env_def
        unreadable_probe_def py_int_def Let_def)
  from probe_duration [where path = "''store/videos/v.mp4''" and cap = unreadable_probe]
  have a: "get_video_info_probe ''store/videos/v.mp4'' unreadable_probe =
       Inr \<lparr>vi_filename = ''v.mp4'', vi_duration = 0, vi_fps = 0, vi_width = 0, vi_height = 0\<rparr>"
    using n by (simp add: unreadable_probe_def py_int_def)
  from probe_duration [where path = "''store/videos/v.mp4''" and cap = test_probe]
  have b: "get_video_info_probe ''store/videos/v.mp4'' test_probe =
       Inr \<lparr>vi_filename = ''v.mp4'', vi_duration = 5, vi_fps = 30, vi_width = 640,
            vi_height = 480\<rparr>"
    using n by (simp add: test_probe_def py_int_def)
  from probe_duration [where path = "''store/videos/v.mp4''" and cap = negative_probe]
  have c: "get_video_info_probe ''store/videos/v.mp4'' negative_probe =
       Inr \<lparr>vi_filename = ''v.mp4'', vi_duration = 0, vi_fps = - 1, vi_width = - 1,
            vi_height = - 1\<rparr>"
    using n by (simp add: negative_probe_def py_int_def ceiling_minus)
  from h a b c u show ?thesis by (intro conjI)
qed

text \<open>
  The claim as stated fails for a negative frame rate: with frame rate -1 and frame
  count -1 the quotient is 1 and the frame rate is not 0, yet the duration is 0.
\<close>

theorem negative_rate_counterexample:
  "cap_fps negative_probe \<noteq> 0
   \<and> cap_frame_count negative_probe / cap_fps negative_probe = 1
   \<and> get_video_info_probe ''store/videos/v.mp4'' negative_probe =
       Inr \<lparr>vi_filename = ''v.mp4'', vi_duration = 0, vi_fps = - 1, vi_width = - 1,
            vi_height = - 1\<rparr>"
proof -
  have n: "path_name ''store/videos/v.mp4'' = ''v.mp4''"
    by code_simp
  have a: "cap_fps negative_probe \<noteq> 0"
    by (simp add: negative_probe_def)
  have b: "cap_frame_count negative_probe / cap_fps negative_probe = 1"
    by (simp add: negative_probe_def)
  have c: "get_video_info_probe ''store/videos/v.mp4'' negative_probe =
       Inr \<lparr>vi_filename = ''v.mp4'', vi_duration = 0, vi_fps = - 1, vi_width = - 1,
            vi_height = - 1\<rparr>"
    using n by (simp add: get_video_info_probe_eq negative_probe_def py_int_def ceiling_minus)
  from a b c show ?thesis by (intro conjI)
qed

section \<open>Scene detection\<close>

subsection \<open>Scenes in the store\<close>

lemma insert_scenes_fields:
  "videos (foldl (\<lambda>w sc. sql_insert_scene vid sc w) s scs) = videos s"
  "transcripts (foldl (\<lambda>w sc. sql_insert_scene vid sc w) s scs) = transcripts s"
  "transcripts_seq (foldl (\<lambda>w sc. sql_insert_scene vid sc w) s scs) = transcripts_seq s"
  by (induction scs arbitrary: s) (simp_all add: sql_insert_scene_def)

lemma insert_scenes_rows:
  "\<exists>new. scenes (foldl (\<lambda>w sc. sql_insert_scene vid sc w) s scs) = scenes s @ new \<and>
         map sr_scene new = scs \<and> map sr_video_id new = replicate (length scs) vid"
proof (induction scs arbitrary: s)
  case Nil
  then show ?case by simp
next
  case (Cons c scs)
  let ?s1 = "sql_insert_scene vid c s"
  from Cons [of ?s1] obtain new where
    n: "scenes (foldl (\<lambda>w sc. sql_insert_scene vid sc w) ?s1 scs) = scenes ?s1 @ new"
       "map sr_scene new = scs" "map sr_video_id new = replicate (length scs) vid"
    by blast
  let ?r = "\<lparr>sr_id = Suc (scenes_seq s), sr_video_id = vid, sr_scene = c\<rparr>"
  have "scenes ?s1 = scenes s @ [?r]"
    by (simp add: sql_insert_scene_def)
  with n have "scenes (foldl (\<lambda>w sc. sql_insert_scene vid sc w) s (c # scs)) =
      scenes s @ (?r # new) \<and> map sr_scene (?r # new) = c # scs \<and>
      map sr_video_id (?r # new) = replicate (length (c # scs)) vid"
    by simp
  then show ?case by (rule exI [of _ "?r # new"])
qed

lemma filter_all_scene_vid:
  "map sr_video_id new = replicate n vid \<Longrightarrow>
   filter (\<lambda>r. sr_video_id r = vid) new = new \<and> filter (\<lambda>r. sr_video_id r \<noteq> vid) new = []"
proof (induction new arbitrary: n)
  case Nil
  then show ?case by simp
next
  case (Cons r new)
  then show ?case by (cases n) auto
qed

lemma save_scenes_rows:
  "\<exists>new. scenes (save_scenes_to_db s vid scs) =
           filter (\<lambda>r. sr_video_id r \<noteq> vid) (scenes s) @ new \<and>
         map sr_scene new = scs \<and> map sr_video_id new = replicate (length scs) vid"
  using insert_scenes_rows [of vid "sql_delete_scenes vid s" scs]
  by (simp add: save_scenes_to_db_eq sql_delete_scenes_def)

lemma scenes_of_save_same: "scenes_of (save_scenes_to_db s vid scs) vid = scs"
proof -
  from save_scenes_rows [of s vid scs] obtain new where
    n: "scenes (save_scenes_to_db s vid scs) =
          filter (\<lambda>r. sr_video_id r \<noteq> vid) (scenes s) @ new"
       "map sr_scene new = scs" "map sr_video_id new = replicate (length scs) vid"
    by blast
  from filter_all_scene_vid [OF n(3)] have "filter (\<lambda>r. sr_video_id r = vid) new = new" by simp
  with n show ?thesis by (simp add: scenes_of_def)
qed

lemma other_scenes_kept_by_save:
  "filter (\<lambda>r. sr_video_id r \<noteq> vid) (scenes (save_scenes_to_db s vid scs)) =
   filter (\<lambda>r. sr_video_id r \<noteq> vid) (scenes s)"
proof -
  from save_scenes_rows [of s vid scs] obtain new where
    n: "scenes (save_scenes_to_db s vid scs) =
          filter (\<lambda>r. sr_video_id r \<noteq> vid) (scenes s) @ new"
       "map sr_video_id new = replicate (length scs) vid"
    by blast
  from filter_all_scene_vid [OF n(2)] have "filter (\<lambda>r. sr_video_id r \<noteq> vid) new = []" by simp
  with n show ?thesis by simp
qed

lemma save_scenes_fields:
  "videos (save_scenes_to_db s vid scs) = videos s"
  "transcripts (save_scenes_to_db s vid scs) = transcripts s"
  "transcripts_seq (save_scenes_to_db s vid scs) = transcripts_seq s"
  by (simp_all add: save_scenes_to_db_eq insert_scenes_fields sql_delete_scenes_def)

lemma length_scenes_of: "length (scenes_of s vid) = length (filter (\<lambda>r. sr_video_id r = vid) (scenes s))"
  by (simp add: scenes_of_def)

subsection \<open>The keyframe loop\<close>

lemma extract_keyframe_Inl:
  "extract_keyframe p env vp t vid i = (Inl e, p') \<Longrightarrow> p' = p"
  by (auto simp: extract_keyframe_def Let_def split: option.splits)

lemma extract_keyframe_Inr:
  "extract_keyframe p env vp t vid i = (Inr fp, p') \<Longrightarrow>
     fp = frame_file p vid i \<and> d_keyframe env i = None \<and>
     p' = p\<lparr>files := (files p)(frame_file p vid i \<mapsto> KeyframeImage vp t)\<rparr>"
  by (auto simp: extract_keyframe_def Let_def split: option.splits)

lemma extract_keyframes_keeps:
  "extract_keyframes p env vp vid i bs acc = (r, p') \<Longrightarrow>
     db p' = db p \<and> storage_path p' = storage_path p \<and> whisper_model p' = whisper_model p"
proof (induction bs arbitrary: p i acc)
  case Nil
  then show ?case by simp
next
  case (Cons b bs)
  show ?case
  proof (cases "extract_keyframe p env vp (fst b) vid i")
    case (Pair x p1)
    show ?thesis
    proof (cases x)
      case (Inl e)
      with Pair Cons.prems extract_keyframe_Inl [of p env vp "fst b" vid i e p1]
      show ?thesis by simp
    next
      case (Inr fp)
      with Pair have p1: "p1 = p\<lparr>files := (files p)(frame_file p vid i \<mapsto> KeyframeImage vp (fst b))\<rparr>"
        using extract_keyframe_Inr by blast
      from Pair Inr Cons.prems have
        "extract_keyframes p1 env vp vid (Suc i) bs
           (acc @ [\<lparr>scene_number = i, sc_start_time = fst b, sc_end_time = snd b,
                    frame_path = fp\<rparr>]) = (r, p')"
        by simp
      from Cons.IH [OF this] p1 show ?thesis by simp
    qed
  qed
qed

lemma extract_keyframes_result:
  "extract_keyframes p env vp vid i bs acc = (Inr scs, p') \<Longrightarrow>
     scs = acc @ map (\<lambda>(k, b). \<lparr>scene_number = k, sc_start_time = fst b, sc_end_time = snd b,
                                 frame_path = frame_file p vid k\<rparr>) (enumerate i bs)"
proof (induction bs arbitrary: p i acc)
  case Nil
  then show ?case by simp
next
  case (Cons b bs)
  show ?case
  proof (cases "extract_keyframe p env vp (fst b) vid i")
    case (Pair x p1)
    show ?thesis
    proof (cases x)
      case (Inl e)
      with Pair Cons.prems show ?thesis by simp
    next
      case (Inr fp)
      with Pair have p1: "p1 = p\<lparr>files := (files p)(frame_file p vid i \<mapsto> KeyframeImage vp (fst b))\<rparr>"
        and fp: "fp = frame_file p vid i"
        using extract_keyframe_Inr by blast+
      from p1 have ff: "frame_file p1 vid k = frame_file p vid k" for k
        by (simp add: frame_file_def frames_path_def)
      from Pair Inr Cons.prems have
        "extract_keyframes p1 env vp vid (Suc i) bs
           (acc @ [\<lparr>scene_number = i, sc_start_time = fst b, sc_end_time = snd b,
                    frame_path = fp\<rparr>]) = (Inr scs, p')"
        by simp
      from Cons.IH [OF this] fp show ?thesis by (simp add: ff)
    qed
  qed
qed

lemma extract_keyframes_files_other:
  "extract_keyframes p env vp vid i bs acc = (r, p') \<Longrightarrow>
   (\<And>k. i \<le> k \<Longrightarrow> k < i + length bs \<Longrightarrow> path \<noteq> frame_file p vid k) \<Longrightarrow>
   files p' path = files p path"
proof (induction bs arbitrary: p i acc)
  case Nil
  then show ?case by simp
next
  case (Cons b bs)
  show ?case
  proof (cases "extract_keyframe p env vp (fst b) vid i")
    case (Pair x p1)
    show ?thesis
    proof (cases x)
      case (Inl e)
      with Pair Cons.prems(1) extract_keyframe_Inl [of p env vp "fst b" vid i e p1]
      show ?thesis by simp
    next
      case (Inr fp)
      with Pair have p1: "p1 = p\<lparr>files := (files p)(frame_file p vid i \<mapsto> KeyframeImage vp (fst b))\<rparr>"
        using extract_keyframe_Inr by blast
      from p1 have ff: "frame_file p1 vid k = frame_file p vid k" for k
        by (simp add: frame_file_def frames_path_def)
      from Pair Inr Cons.prems(1) have run:
        "extract_keyframes p1 env vp vid (Suc i) bs
           (acc @ [\<lparr>scene_number = i, sc_start_time = fst b, sc_end_time = snd b,
                    frame_path = fp\<rparr>]) = (r, p')"
        by simp
      have "path \<noteq> frame_file p1 vid k" if "Suc i \<le> k" "k < Suc i + length bs" for k
        using Cons.prems(2) [of k] that by (simp add: ff)
      with Cons.IH [OF run] have "files p' path = files p1 path" by blast
      moreover have "path \<noteq> frame_file p vid i"
        using Cons.prems(2) [of i] by simp
      ultimately show ?thesis using p1 by simp
    qed
  qed
qed

lemma extract_keyframes_files_written:
  "extract_keyframes p env vp vid i bs acc = (Inr scs, p') \<Longrightarrow> k < length bs \<Longrightarrow>
   files p' (frame_file p vid (i + k)) = Some (KeyframeImage vp (fst (bs ! k)))"
proof (induction bs arbitrary: p i acc k)
  case Nil
  then show ?case by simp
next
  case (Cons b bs)
  show ?case
  proof (cases "extract_keyframe p env vp (fst b) vid i")
    case (Pair x p1)
    show ?thesis
    proof (cases x)
      case (Inl e)
      with Pair Cons.prems(1) show ?thesis by simp
    next
      case (Inr fp)
      with Pair have p1: "p1 = p\<lparr>files := (files p)(frame_file p vid i \<mapsto> KeyframeImage vp (fst b))\<rparr>"
        using extract_keyframe_Inr by blast
      from p1 have ff: "frame_file p1 vid j = frame_file p vid j" for j
        by (simp add: frame_file_def frames_path_def)
      from Pair Inr Cons.prems(1) have run:
        "extract_keyframes p1 env vp vid (Suc i) bs
           (acc @ [\<lparr>scene_number = i, sc_start_time = fst b, sc_end_time = snd b,
                    frame_path = fp\<rparr>]) = (Inr scs, p')"
        by simp
      show ?thesis
      proof (cases k)
        case 0
        have "frame_file p vid i \<noteq> frame_file p1 vid j" if "Suc i \<le> j" for j
          using that frame_file_inj [of p vid i j] by (auto simp: ff)
        with extract_keyframes_files_other [OF run, of "frame_file p vid i"]
        have "files p' (frame_file p vid i) = files p1 (frame_file p vid i)" by blast
        with p1 0 show ?thesis by simp
      next
        case (Suc k')
        with Cons.prems(2) have "k' < length bs" by simp
        from Cons.IH [OF run this] Suc show ?thesis by (simp add: ff)
      qed
    qed
  qed
qed

lemma extract_keyframes_ok:
  "(\<And>k. k < length bs \<Longrightarrow> d_keyframe env (i + k) = None) \<Longrightarrow>
   \<exists>scs p'. extract_keyframes p env vp vid i bs acc = (Inr scs, p')"
proof (induction bs arbitrary: p i acc)
  case Nil
  then show ?case by simp
next
  case (Cons b bs)
  from Cons.prems [of 0] have k0: "d_keyframe env i = None" by simp
  have "d_keyframe env (Suc i + k) = None" if "k < length bs" for k
    using Cons.prems [of "Suc k"] that by simp
  from Cons.IH [OF this] k0 show ?case
    by (simp add: extract_keyframe_def Let_def)
qed

section \<open>The stages, case by case\<close>

lemma detect_scenes_Success:
  assumes "detect_scenes p env vid th = (Success (scs, n), p')"
  shows "\<exists>bs p1. d_detector env th = Inr bs
           \<and> extract_keyframes p env (path_join (videos_path p) (vid @ ''.mp4'')) vid 0 bs [] =
               (Inr scs, p1)
           \<and> n = length scs
           \<and> p' = p1\<lparr>db := save_scenes_to_db (db p1) vid scs\<rparr>"
  using assms
  by (auto simp: detect_scenes_def Let_def split: sum.splits prod.splits)

lemma detect_scenes_Failure:
  assumes "detect_scenes p env vid th = (Failure m, p')"
  shows "db p' = db p"
proof (cases "d_detector env th")
  case (Inl e)
  with assms show ?thesis by (simp add: detect_scenes_def Let_def)
next
  case (Inr bs)
  show ?thesis
  proof (cases "extract_keyframes p env (path_join (videos_path p) (vid @ ''.mp4'')) vid 0 bs []")
    case (Pair r p1)
    from extract_keyframes_keeps [OF Pair] have k: "db p1 = db p" by simp
    from assms Inr Pair have "p' = p1"
      by (cases r) (simp_all add: detect_scenes_def Let_def)
    with k show ?thesis by simp
  qed
qed

lemma upload_video_Failure:
  assumes "upload_video p env path video_id = (Failure m, p')"
  shows "db p' = db p"
  using assms
  by (auto simp: upload_video_def convert_video_def get_video_info_probe_eq Let_def
      split: option.splits)

lemma extract_audio_eq:
  "extract_audio p env vp =
     (case t_extract env of
        Some e \<Rightarrow> (Inl e, p\<lparr>files := (files p)(t_temp_name env \<mapsto> EmptyFile)\<rparr>)
      | None \<Rightarrow> (Inr (t_temp_name env),
                 p\<lparr>files := (files p)(t_temp_name env \<mapsto> AudioFile vp)\<rparr>))"
  by (simp add: extract_audio_def Let_def split: option.splits)

lemma transcribe_video_no_model:
  "\<not> whisper_model p \<Longrightarrow>
   transcribe_video p env vid = (Failure ''Whisper model not available'', p)"
  by (simp add: transcribe_video_def)

lemma transcribe_video_extract_fails:
  "whisper_model p \<Longrightarrow> t_extract env = Some e \<Longrightarrow>
   transcribe_video p env vid =
     (Failure (str_error e), p\<lparr>files := (files p)(t_temp_name env \<mapsto> EmptyFile)\<rparr>)"
  by (simp add: transcribe_video_def extract_audio_eq Let_def)

lemma transcribe_video_whisper_fails:
  "whisper_model p \<Longrightarrow> t_extract env = None \<Longrightarrow> t_whisper env = Inl e \<Longrightarrow>
   transcribe_video p env vid =
     (Failure (str_error e),
      p\<lparr>files := (files p)(t_temp_name env \<mapsto>
             AudioFile (path_join (videos_path p) (vid @ ''.mp4'')))\<rparr>)"
  by (simp add: transcribe_video_def extract_audio_eq Let_def)

lemma transcribe_video_write_fails:
  "whisper_model p \<Longrightarrow> t_extract env = None \<Longrightarrow> t_whisper env = Inr res \<Longrightarrow>
   t_write_json env = Some e \<Longrightarrow>
   transcribe_video p env vid =
     (Failure (str_error e),
      p\<lparr>files := (files p)(t_temp_name env \<mapsto>
             AudioFile (path_join (videos_path p) (vid @ ''.mp4''))),
        db := save_transcript_to_db (db p) vid (map transcript_entry (wr_segments res))\<rparr>)"
  by (simp add: transcribe_video_def extract_audio_eq write_json_def Let_def)

lemma transcribe_video_succeeds:
  "whisper_model p \<Longrightarrow> t_extract env = None \<Longrightarrow> t_whisper env = Inr res \<Longrightarrow>
   t_write_json env = None \<Longrightarrow>
   \<exists>p'. transcribe_video p env vid =
          (Success (map transcript_entry (wr_segments res), wr_text res), p')
        \<and> files p' (t_temp_name env) = None
        \<and> db p' = save_transcript_to_db (db p) vid (map transcript_entry (wr_segments res))"
  by (simp add: transcribe_video_def extract_audio_eq write_json_def os_remove_def Let_def)

lemma transcribe_video_Failure:
  assumes "transcribe_video p env vid = (Failure m, p')" and "t_write_json env = None"
  shows "db p' = db p"
proof (cases "whisper_model p")
  case False
  with assms show ?thesis by (simp add: transcribe_video_no_model)
next
  case True
  show ?thesis
  proof (cases "t_extract env")
    case (Some e)
    with True assms show ?thesis by (auto simp: transcribe_video_extract_fails)
  next
    case None
    show ?thesis
    proof (cases "t_whisper env")
      case (Inl e)
      with True None assms show ?thesis by (auto simp: transcribe_video_whisper_fails)
    next
      case (Inr res)
      from transcribe_video_succeeds [OF True None Inr assms(2), of vid] assms(1)
      show ?thesis by auto
    qed
  qed
qed

text \<open>
  Claim C8. When \<^verbatim>\<open>detect_scenes\<close> succeeds, the detector returned a list of boundary
  pairs, and the number of returned scenes, the reported total and the number of scene
  rows stored for the video all equal the length of that list; when the detector returns
  no boundary the call succeeds with the empty scene list and no scene row is stored for
  the video; and whenever the detector answers and every keyframe can be extracted the
  call succeeds.
\<close>

theorem scene_count_matches_boundaries:
  "(detect_scenes p env vid th = (Success (scs, n), p') \<longrightarrow>
      (\<exists>bs. d_detector env th = Inr bs \<and> n = length bs \<and> length scs = length bs
            \<and> length (filter (\<lambda>r. sr_video_id r = vid) (scenes (db p'))) = length bs))
   \<and> (d_detector env th = Inr [] \<longrightarrow>
        detect_scenes p env vid th =
          (Success ([], 0), p\<lparr>db := save_scenes_to_db (db p) vid []\<rparr>)
        \<and> scenes_of (save_scenes_to_db (db p) vid []) vid = [])
   \<and> (d_detector env th = Inr bs \<and> (\<forall>i<length bs. d_keyframe env i = None) \<longrightarrow>
        (\<exists>scs' p''. detect_scenes p env vid th = (Success (scs', length bs), p'')))"
proof -
  have a: "\<exists>bs. d_detector env th = Inr bs \<and> n = length bs \<and> length scs = length bs
            \<and> length (filter (\<lambda>r. sr_video_id r = vid) (scenes (db p'))) = length bs"
    if run: "detect_scenes p env vid th = (Success (scs, n), p')"
  proof -
    from detect_scenes_Success [OF run] obtain bs p1 where
      d: "d_detector env th = Inr bs"
      and k: "extract_keyframes p env (path_join (videos_path p) (vid @ ''.mp4'')) vid 0 bs [] =
               (Inr scs, p1)"
      and n: "n = length scs"
      and p': "p' = p1\<lparr>db := save_scenes_to_db (db p1) vid scs\<rparr>"
      by blast
    from extract_keyframes_result [OF k] have len: "length scs = length bs" by simp
    from p' have "scenes_of (db p') vid = scs" by (simp add: scenes_of_save_same)
    then have "length (filter (\<lambda>r. sr_video_id r = vid) (scenes (db p'))) = length scs"
      by (simp add: length_scenes_of [symmetric])
    with d n len have "d_detector env th = Inr bs \<and> n = length bs \<and> length scs = length bs
            \<and> length (filter (\<lambda>r. sr_video_id r = vid) (scenes (db p'))) = length bs"
      by simp
    then show ?thesis by (rule exI [of _ bs])
  qed
  have b: "detect_scenes p env vid th = (Success ([], 0), p\<lparr>db := save_scenes_to_db (db p) vid []\<rparr>)
        \<and> scenes_of (save_scenes_to_db (db p) vid []) vid = []"
    if "d_detector env th = Inr []"
    using that by (simp add: detect_scenes_def Let_def scenes_of_save_same)
  have c: "\<exists>scs' p''. detect_scenes p env vid th = (Success (scs', length bs), p'')"
    if d: "d_detector env th = Inr bs" and ok: "\<forall>i<length bs. d_keyframe env i = None"
  proof -
    from ok have "d_keyframe env (0 + k) = None" if "k < length bs" for k
      using that by simp
    from extract_keyframes_ok [of bs env 0 p "path_join (videos_path p) (vid @ ''.mp4'')" vid "[]", OF this]
    obtain scs' p1 where
      k: "extract_keyframes p env (path_join (videos_path p) (vid @ ''.mp4'')) vid 0 bs [] =
            (Inr scs', p1)"
      by blast
    from extract_keyframes_result [OF k] have "length scs' = length bs" by simp
    with d k show ?thesis by (simp add: detect_scenes_def Let_def)
  qed
  from a b c show ?thesis by blast
qed

theorem scene_count_matches_boundaries_witness:
  "fst (detect_scenes (init_processor ''store'' True) (detect_env_of [(0, 2), (2, 5)]) ''v'' 27) =
     Success ([\<lparr>scene_number = 0, sc_start_time = 0, sc_end_time = 2,
                 frame_path = ''store/frames/v_scene_0.jpg''\<rparr>,
               \<lparr>scene_number = 1, sc_start_time = 2, sc_end_time = 5,
                 frame_path = ''store/frames/v_scene_1.jpg''\<rparr>], 2)
   \<and> length (filter (\<lambda>r. sr_video_id r = ''v'')
        (scenes (db (snd (detect_scenes (init_processor ''store'' True)
                            (detect_env_of [(0, 2), (2, 5)]) ''v'' 27))))) = 2
   \<and> d_detector (detect_env_of []) 27 = Inr []
   \<and> fst (detect_scenes (init_processor ''store'' True) (detect_env_of []) ''v'' 27) =
       Success ([], 0)
   \<and> scenes_of (db (snd (detect_scenes (init_processor ''store'' True) (detect_env_of [])
                            ''v'' 27))) ''v'' = []"
proof -
  let ?p = "init_processor ''store'' True"
  let ?e = "detect_env_of [(0, 2), (2, 5)]"
  let ?scs = "[\<lparr>scene_number = 0, sc_start_time = 0, sc_end_time = 2,
                 frame_path = ''store/frames/v_scene_0.jpg''\<rparr>,
               \<lparr>scene_number = 1, sc_start_time = 2, sc_end_time = 5,
                 frame_path = ''store/frames/v_scene_1.jpg''\<rparr>]"
  have f: "fst (detect_scenes ?p ?e ''v'' 27) = Success (?scs, 2)"
    by code_simp
  then have run: "detect_scenes ?p ?e ''v'' 27 = (Success (?scs, 2), snd (detect_scenes ?p ?e ''v'' 27))"
    by (simp add: prod_eq_iff)
  have d: "d_detector (detect_env_of []) 27 = Inr []"
    by (simp add: detect_env_of_def)
  from scene_count_matches_boundaries
    [of ?p ?e "''v''" 27 ?scs 2 "snd (detect_scenes ?p ?e ''v'' 27)" "[]"] run
  have two: "length (filter (\<lambda>r. sr_video_id r = ''v'')
        (scenes (db (snd (detect_scenes ?p ?e ''v'' 27))))) = 2"
    by auto
  from scene_count_matches_boundaries
    [of ?p "detect_env_of []" "''v''" 27 "[]" 0 ?p "[]"] d
  have none: "detect_scenes ?p (detect_env_of []) ''v'' 27 =
          (Success ([], 0), ?p\<lparr>db := save_scenes_to_db (db ?p) ''v'' []\<rparr>)
        \<and> scenes_of (save_scenes_to_db (db ?p) ''v'' []) ''v'' = []"
    by blast
  from f two d none show ?thesis by simp
qed

text \<open>
  Claim C5, as amended. A successful re-run of \<^verbatim>\<open>detect_scenes\<close> replaces the scene rows
  of the video by exactly the new list and leaves the rows of other videos alone; scene
  \<open>i\<close> of the new list has number \<open>i\<close> and its keyframe file, named by the video id and
  \<open>i\<close>, holds the frame at the scene's start; every other file is as it was before the
  call, in particular a keyframe file of an earlier run whose index is not below the new
  scene count stays on disk.
\<close>

theorem detect_scenes_rerun:
  assumes "detect_scenes p env vid th = (Success (scs, n), p')"
  shows "scenes_of (db p') vid = scs
   \<and> filter (\<lambda>r. sr_video_id r \<noteq> vid) (scenes (db p')) =
       filter (\<lambda>r. sr_video_id r \<noteq> vid) (scenes (db p))
   \<and> n = length scs
   \<and> (\<forall>i<n. scene_number (scs ! i) = i \<and> frame_path (scs ! i) = frame_file p vid i
          \<and> files p' (frame_file p vid i) =
              Some (KeyframeImage (path_join (videos_path p) (vid @ ''.mp4''))
                      (sc_start_time (scs ! i))))
   \<and> (\<forall>path. (\<forall>i<n. path \<noteq> frame_file p vid i) \<longrightarrow> files p' path = files p path)
   \<and> (\<forall>j\<ge>n. files p' (frame_file p vid j) = files p (frame_file p vid j))"
proof -
  let ?vp = "path_join (videos_path p) (vid @ ''.mp4'')"
  let ?mk = "\<lambda>(k, b). \<lparr>scene_number = k, sc_start_time = fst b, sc_end_time = snd b,
                         frame_path = frame_file p vid k\<rparr>"
  from detect_scenes_Success [OF assms] obtain bs p1 where
    d: "d_detector env th = Inr bs"
    and k: "extract_keyframes p env ?vp vid 0 bs [] = (Inr scs, p1)"
    and n: "n = length scs"
    and p': "p' = p1\<lparr>db := save_scenes_to_db (db p1) vid scs\<rparr>"
    by blast
  from extract_keyframes_result [OF k] have scs: "scs = map ?mk (enumerate 0 bs)" by simp
  then have len: "length scs = length bs" by simp
  from extract_keyframes_keeps [OF k] have db1: "db p1 = db p" by simp
  from p' have files': "files p' = files p1" by simp
  have rows: "scenes_of (db p') vid = scs"
    using p' by (simp add: scenes_of_save_same)
  have others: "filter (\<lambda>r. sr_video_id r \<noteq> vid) (scenes (db p')) =
       filter (\<lambda>r. sr_video_id r \<noteq> vid) (scenes (db p))"
    using p' db1 by (simp add: other_scenes_kept_by_save)
  have entry: "scs ! i = \<lparr>scene_number = i, sc_start_time = fst (bs ! i),
      sc_end_time = snd (bs ! i), frame_path = frame_file p vid i\<rparr>" if "i < n" for i
    using that n len scs by (simp add: nth_enumerate_eq)
  have written: "scene_number (scs ! i) = i \<and> frame_path (scs ! i) = frame_file p vid i
          \<and> files p' (frame_file p vid i) = Some (KeyframeImage ?vp (sc_start_time (scs ! i)))"
    if "i < n" for i
  proof -
    from that n len have "i < length bs" by simp
    from extract_keyframes_files_written [OF k this]
    have "files p1 (frame_file p vid i) = Some (KeyframeImage ?vp (fst (bs ! i)))" by simp
    with entry [OF that] files' show ?thesis by simp
  qed
  have untouched: "files p' path = files p path" if "\<forall>i<n. path \<noteq> frame_file p vid i" for path
  proof -
    from that n len have "path \<noteq> frame_file p vid j" if "0 \<le> j" "j < 0 + length bs" for j
      using that by simp
    from extract_keyframes_files_other [OF k this] files' show ?thesis by simp
  qed
  have later: "files p' (frame_file p vid j) = files p (frame_file p vid j)" if "n \<le> j" for j
  proof -
    have "\<forall>i<n. frame_file p vid j \<noteq> frame_file p vid i"
      using that frame_file_inj [of p vid j] by auto
    then show ?thesis by (rule untouched)
  qed
  from rows others n written untouched later show ?thesis by blast
qed

theorem detect_scenes_rerun_witness:
  "fst (detect_scenes two_scene_processor (detect_env_of [(0, 5)]) ''v'' 27) =
     Success ([\<lparr>scene_number = 0, sc_start_time = 0, sc_end_time = 5,
                 frame_path = ''store/frames/v_scene_0.jpg''\<rparr>], 1)
   \<and> scenes_of (db (snd (detect_scenes two_scene_processor (detect_env_of [(0, 5)]) ''v'' 27)))
        ''v'' =
       [\<lparr>scene_number = 0, sc_start_time = 0, sc_end_time = 5,
         frame_path = ''store/frames/v_scene_0.jpg''\<rparr>]
   \<and> files (snd (detect_scenes two_scene_processor (detect_env_of [(0, 5)]) ''v'' 27))
        ''store/frames/v_scene_0.jpg'' =
       Some (KeyframeImage ''store/videos/v.mp4'' 0)"
proof -
  let ?e = "detect_env_of [(0, 5)]"
  let ?scs = "[\<lparr>scene_number = 0, sc_start_time = 0, sc_end_time = 5,
                 frame_path = ''store/frames/v_scene_0.jpg''\<rparr>]"
  let ?p' = "snd (detect_scenes two_scene_processor ?e ''v'' 27)"
  have f: "fst (detect_scenes two_scene_processor ?e ''v'' 27) = Success (?scs, 1)"
    by code_simp
  then have run: "detect_scenes two_scene_processor ?e ''v'' 27 = (Success (?scs, 1), ?p')"
    by (simp add: prod_eq_iff)
  have ff: "frame_file two_scene_processor ''v'' 0 = ''store/frames/v_scene_0.jpg''"
    by code_simp
  have vp: "path_join (videos_path two_scene_processor) ''v.mp4'' = ''store/videos/v.mp4''"
    by code_simp
  from detect_scenes_rerun [OF run] have
    "scenes_of (db ?p') ''v'' = ?scs"
    "\<forall>i<1. files ?p' (frame_file two_scene_processor ''v'' i) =
        Some (KeyframeImage (path_join (videos_path two_scene_processor) (''v'' @ ''.mp4''))
                (sc_start_time (?scs ! i)))"
    by blast+
  with f ff vp show ?thesis by simp
qed

text \<open>
  The claim as stated fails when the new run finds fewer scenes: after a run with two
  scenes and a re-run with one, the keyframe of scene 1 is still on disk and no scene
  row names it.
\<close>

theorem orphan_keyframe_counterexample:
  "fst (detect_scenes two_scene_processor (detect_env_of [(0, 5)]) ''v'' 27) =
     Success ([\<lparr>scene_number = 0, sc_start_time = 0, sc_end_time = 5,
                 frame_path = ''store/frames/v_scene_0.jpg''\<rparr>], 1)
   \<and> files two_scene_processor ''store/frames/v_scene_1.jpg'' =
       Some (KeyframeImage ''store/videos/v.mp4'' 2)
   \<and> files (snd (detect_scenes two_scene_processor (detect_env_of [(0, 5)]) ''v'' 27))
        ''store/frames/v_scene_1.jpg'' =
       Some (KeyframeImage ''store/videos/v.mp4'' 2)
   \<and> map (\<lambda>r. frame_path (sr_scene r))
        (scenes (db (snd (detect_scenes two_scene_processor (detect_env_of [(0, 5)]) ''v'' 27)))) =
       [''store/frames/v_scene_0.jpg'']"
proof -
  have a: "fst (detect_scenes two_scene_processor (detect_env_of [(0, 5)]) ''v'' 27) =
     Success ([\<lparr>scene_number = 0, sc_start_time = 0, sc_end_time = 5,
                 frame_path = ''store/frames/v_scene_0.jpg''\<rparr>], 1)"
    by code_simp
  have b: "files two_scene_processor ''store/frames/v_scene_1.jpg'' =
       Some (KeyframeImage ''store/videos/v.mp4'' 2)"
    by code_simp
  have c: "files (snd (detect_scenes two_scene_processor (detect_env_of [(0, 5)]) ''v'' 27))
        ''store/frames/v_scene_1.jpg'' =
       Some (KeyframeImage ''store/videos/v.mp4'' 2)"
    by code_simp
  have d: "map (\<lambda>r. frame_path (sr_scene r))
        (scenes (db (snd (detect_scenes two_scene_processor (detect_env_of [(0, 5)]) ''v'' 27)))) =
       [''store/frames/v_scene_0.jpg'']"
    by code_simp
  from a b c d show ?thesis by blast
qed

section \<open>Failing stages\<close>

lemma extract_keyframes_fails:
  "k < length bs \<Longrightarrow> d_keyframe env (i + k) \<noteq> None \<Longrightarrow>
   \<exists>e p'. extract_keyframes p env vp vid i bs acc = (Inl e, p')"
proof (induction bs arbitrary: p i acc k)
  case Nil
  then show ?case by simp
next
  case (Cons b bs)
  show ?case
  proof (cases "d_keyframe env i")
    case (Some e)
    then show ?thesis by (simp add: extract_keyframe_def Let_def)
  next
    case None
    with Cons.prems obtain k' where k': "k = Suc k'"
      by (cases k) auto
    with Cons.prems have "k' < length bs" "d_keyframe env (Suc i + k') \<noteq> None"
      by simp_all
    from Cons.IH [OF this] None show ?thesis
      by (simp add: extract_keyframe_def Let_def)
  qed
qed

lemma detect_scenes_keyframe_fails:
  assumes "d_detector env th = Inr bs" and "k < length bs" and "d_keyframe env k \<noteq> None"
  shows "\<exists>m p'. detect_scenes p env vid th = (Failure m, p') \<and> db p' = db p"
proof -
  from assms(2,3) have "d_keyframe env (0 + k) \<noteq> None" by simp
  from extract_keyframes_fails [OF assms(2) this]
  obtain e p1 where
    k: "extract_keyframes p env (path_join (videos_path p) (vid @ ''.mp4'')) vid 0 bs [] =
          (Inl e, p1)"
    by blast
  from extract_keyframes_keeps [OF k] have "db p1 = db p" by simp
  with assms(1) k show ?thesis by (simp add: detect_scenes_def Let_def)
qed

lemma scratch_audio_remains:
  assumes "whisper_model p" and "t_extract env = None"
    and "isl (t_whisper env) \<or> t_write_json env \<noteq> None"
  shows "\<exists>m p'. transcribe_video p env vid = (Failure m, p')
           \<and> files p' (t_temp_name env) =
               Some (AudioFile (path_join (videos_path p) (vid @ ''.mp4'')))"
proof (cases "t_whisper env")
  case (Inl e)
  from transcribe_video_whisper_fails [OF assms(1,2) Inl] show ?thesis by simp
next
  case (Inr res)
  with assms(3) obtain e where "t_write_json env = Some e" by auto
  from transcribe_video_write_fails [OF assms(1,2) Inr this] show ?thesis by simp
qed

text \<open>
  Claim C1, as amended. A failed \<^verbatim>\<open>upload_video\<close> and a failed \<^verbatim>\<open>detect_scenes\<close> leave the
  store as it was before the call, and so does a failed \<^verbatim>\<open>transcribe_video\<close> unless the
  failure is the writing of the transcript file, which comes after the commit. In
  particular a failed transcode commits no video row and changes nothing; a missing
  model, a failed audio extraction and a failed transcription leave the store (so the
  prior transcript) unchanged; a failed detection and a failed keyframe extraction leave
  the store (so the prior scene rows) unchanged.
\<close>

theorem failed_stage_leaves_store:
  "(upload_video p ue path video_id = (Failure m, p') \<longrightarrow> db p' = db p)
   \<and> (detect_scenes p de vid th = (Failure m, p') \<longrightarrow> db p' = db p)
   \<and> (transcribe_video p te vid = (Failure m, p') \<and> t_write_json te = None \<longrightarrow> db p' = db p)
   \<and> (u_convert ue = Some e \<longrightarrow> upload_video p ue path video_id = (Failure (str_error e), p))
   \<and> (\<not> whisper_model p \<or> t_extract te \<noteq> None \<or> isl (t_whisper te) \<longrightarrow>
        (\<exists>m' p''. transcribe_video p te vid = (Failure m', p'') \<and> db p'' = db p))
   \<and> (d_detector de th = Inl e \<longrightarrow> detect_scenes p de vid th = (Failure (str_error e), p))
   \<and> (d_detector de th = Inr bs \<and> (\<exists>k<length bs. d_keyframe de k \<noteq> None) \<longrightarrow>
        (\<exists>m' p''. detect_scenes p de vid th = (Failure m', p'') \<and> db p'' = db p))"
proof -
  have a: "db p' = db p" if "upload_video p ue path video_id = (Failure m, p')"
    using that by (rule upload_video_Failure)
  have b: "db p' = db p" if "detect_scenes p de vid th = (Failure m, p')"
    using that by (rule detect_scenes_Failure)
  have c: "db p' = db p"
    if "transcribe_video p te vid = (Failure m, p')" "t_write_json te = None"
    using that by (rule transcribe_video_Failure)
  have d: "upload_video p ue path video_id = (Failure (str_error e), p)"
    if "u_convert ue = Some e"
    using that by (simp add: upload_video_def convert_video_def Let_def)
  have f: "\<exists>m' p''. transcribe_video p te vid = (Failure m', p'') \<and> db p'' = db p"
    if pre: "\<not> whisper_model p \<or> t_extract te \<noteq> None \<or> isl (t_whisper te)"
  proof (cases "whisper_model p")
    case False
    then show ?thesis by (simp add: transcribe_video_no_model)
  next
    case True
    show ?thesis
    proof (cases "t_extract te")
      case (Some x)
      from transcribe_video_extract_fails [OF True Some] show ?thesis by simp
    next
      case None
      with True pre obtain x where "t_whisper te = Inl x"
        by (cases "t_whisper te") auto
      from transcribe_video_whisper_fails [OF True None this] show ?thesis by simp
    qed
  qed
  have g: "detect_scenes p de vid th = (Failure (str_error e), p)" if "d_detector de th = Inl e"
    using that by (simp add: detect_scenes_def Let_def)
  have h: "\<exists>m' p''. detect_scenes p de vid th = (Failure m', p'') \<and> db p'' = db p"
    if "d_detector de th = Inr bs \<and> (\<exists>k<length bs. d_keyframe de k \<noteq> None)"
    using that detect_scenes_keyframe_fails by blast
  from a b c d f g h show ?thesis by blast
qed

theorem failed_stage_leaves_store_witness:
  "upload_video indexed_processor upload_fail_env ''clip.avi'' (Some ''v'') =
     (Failure ''ffmpeg returned non-zero exit status 1'', indexed_processor)
   \<and> (\<exists>m p'. transcribe_video indexed_processor whisper_fail_env ''v'' = (Failure m, p')
              \<and> db p' = db indexed_processor)
   \<and> (\<exists>m p'. detect_scenes indexed_processor keyframe_fail_env ''v'' 27 = (Failure m, p')
              \<and> db p' = db indexed_processor)"
proof -
  have u: "u_convert upload_fail_env =
      Some (CalledProcessError ''ffmpeg returned non-zero exit status 1'')"
    by (simp add: upload_fail_env_def)
  have w: "\<not> whisper_model indexed_processor \<or> t_extract whisper_fail_env \<noteq> None
      \<or> isl (t_whisper whisper_fail_env)"
    by (simp add: whisper_fail_env_def transcribe_env_of_def)
  have k1: "d_detector keyframe_fail_env 27 = Inr [(0, 2), (2, 5)]"
    by (simp add: keyframe_fail_env_def)
  have "1 < length [(0::real, 2::real), (2, 5)] \<and> d_keyframe keyframe_fail_env 1 \<noteq> None"
    by (simp add: keyframe_fail_env_def)
  then have k2: "\<exists>k<length [(0::real, 2::real), (2, 5)]. d_keyframe keyframe_fail_env k \<noteq> None"
    by (rule exI [of _ 1])
  from k1 k2 have k: "d_detector keyframe_fail_env 27 = Inr [(0, 2), (2, 5)]
      \<and> (\<exists>k<length [(0::real, 2::real), (2, 5)]. d_keyframe keyframe_fail_env k \<noteq> None)"
    by (rule conjI)
  note all = failed_stage_leaves_store
    [where p = indexed_processor and ue = upload_fail_env and path = "''clip.avi''"
       and video_id = "Some ''v''" and te = whisper_fail_env and vid = "''v''"
       and de = keyframe_fail_env and th = 27 and bs = "[(0, 2), (2, 5)]"
       and e = "CalledProcessError ''ffmpeg returned non-zero exit status 1''"]
  from all [THEN conjunct2, THEN conjunct2, THEN conjunct2, THEN conjunct1] u
  have c1: "upload_video indexed_processor upload_fail_env ''clip.avi'' (Some ''v'') =
     (Failure (str_error (CalledProcessError ''ffmpeg returned non-zero exit status 1'')),
      indexed_processor)"
    by (rule mp)
  from all [THEN conjunct2, THEN conjunct2, THEN conjunct2, THEN conjunct2, THEN conjunct1] w
  have c2: "\<exists>m p'. transcribe_video indexed_processor whisper_fail_env ''v'' = (Failure m, p')
              \<and> db p' = db indexed_processor"
    by (rule mp)
  from all [THEN conjunct2, THEN conjunct2, THEN conjunct2, THEN conjunct2, THEN conjunct2,
      THEN conjunct2] k
  have c3: "\<exists>m p'. detect_scenes indexed_processor keyframe_fail_env ''v'' 27 = (Failure m, p')
              \<and> db p' = db indexed_processor"
    by (rule mp)
  from c1 have c1': "upload_video indexed_processor upload_fail_env ''clip.avi'' (Some ''v'') =
     (Failure ''ffmpeg returned non-zero exit status 1'', indexed_processor)"
    by simp
  from c1' c2 c3 show ?thesis by (intro conjI)
qed

text \<open>
  The claim as stated fails for \<^verbatim>\<open>transcribe_video\<close>: when the transcript file cannot be
  written, the call reports failure although \<^verbatim>\<open>_save_transcript_to_db\<close> has already
  committed, and the prior transcript of the video is gone.
\<close>

theorem failed_transcribe_commits_counterexample:
  "fst (transcribe_video indexed_processor write_fail_env ''v'') =
     Failure ''No space left on device''
   \<and> segments_of (db indexed_processor) ''v'' = [seg_hello, seg_abc]
   \<and> segments_of (db (snd (transcribe_video indexed_processor write_fail_env ''v''))) ''v'' =
       [seg_hello]
   \<and> db (snd (transcribe_video indexed_processor write_fail_env ''v'')) \<noteq> db indexed_processor"
proof -
  have a: "fst (transcribe_video indexed_processor write_fail_env ''v'') =
     Failure ''No space left on device''"
    by code_simp
  have b: "segments_of (db indexed_processor) ''v'' = [seg_hello, seg_abc]"
    by code_simp
  have c: "segments_of (db (snd (transcribe_video indexed_processor write_fail_env ''v''))) ''v'' =
       [seg_hello]"
    by code_simp
  have "[seg_hello] \<noteq> [seg_hello, seg_abc]"
    by simp
  with b c have d: "db (snd (transcribe_video indexed_processor write_fail_env ''v'')) \<noteq>
      db indexed_processor"
    by metis
  from a b c d show ?thesis by blast
qed

text \<open>
  Claim C4. The scratch audio file is removed on the successful path only. When Whisper
  raises after the extraction, \<^verbatim>\<open>transcribe_video\<close> reports failure and the scratch file,
  absent before the call, is still on disk; on success it is gone.
\<close>

theorem scratch_audio_left_after_failure:
  "fst (transcribe_video indexed_processor whisper_fail_env ''v'') =
     Failure ''CUDA out of memory''
   \<and> files indexed_processor ''/tmp/tmpk3x9.wav'' = None
   \<and> files (snd (transcribe_video indexed_processor whisper_fail_env ''v'')) ''/tmp/tmpk3x9.wav'' =
       Some (AudioFile ''store/videos/v.mp4'')
   \<and> fst (transcribe_video indexed_processor transcribe_ok_env ''v'') =
       Success ([seg_hello], '' Hello World'')
   \<and> files (snd (transcribe_video indexed_processor transcribe_ok_env ''v'')) ''/tmp/tmpk3x9.wav'' =
       None"
proof -
  have a: "fst (transcribe_video indexed_processor whisper_fail_env ''v'') =
     Failure ''CUDA out of memory''"
    by code_simp
  have b: "files indexed_processor ''/tmp/tmpk3x9.wav'' = None"
    by code_simp
  have c: "files (snd (transcribe_video indexed_processor whisper_fail_env ''v''))
      ''/tmp/tmpk3x9.wav'' = Some (AudioFile ''store/videos/v.mp4'')"
    by code_simp
  have d: "fst (transcribe_video indexed_processor transcribe_ok_env ''v'') =
       Success ([seg_hello], '' Hello World'')"
    by code_simp
  have e: "files (snd (transcribe_video indexed_processor transcribe_ok_env ''v''))
      ''/tmp/tmpk3x9.wav'' = None"
    by code_simp
  from a b c d e show ?thesis by blast
qed

end
